theory Spec2Isabelle
  imports Complex_Main "HOL-Library.AList" "HOL-Library.Char_ord" "HOL-Library.List_Lexorder"
    "HOL-Library.Multiset"
begin

section \<open>Strings and numbers of the host language\<close>

text \<open>
  A string is a list of code units. The model covers the code units 0 to 255 (Latin-1),
  one \<open>char\<close> each: the letter u-umlaut is \<open>CHR 0xFC\<close>, the degree sign is
  \<open>CHR 0xB0\<close>. A number is a double: not-a-number, an infinity, or a finite value.
  A \<open>Date\<close> is a count of milliseconds, or invalid.
\<close>

datatype jsnum = NaN | PosInfinity | NegInfinity | Finite rat

datatype jsdate = InvalidDate | DateMs int

text \<open>\<open>a > b\<close> on two dates compares their time values; an invalid date compares false.\<close>

fun date_gt :: "jsdate \<Rightarrow> jsdate \<Rightarrow> bool" where
  "date_gt (DateMs a) (DateMs b) = (a > b)"
| "date_gt _ _ = False"

definition isNaN :: "jsnum \<Rightarrow> bool" where
  "isNaN v = (v = NaN)"

text \<open>\<open>s.startsWith(p)\<close>, also used for "\<open>p\<close> occurs in \<open>s\<close> at this position".\<close>

fun startsWith :: "string \<Rightarrow> string \<Rightarrow> bool" where
  "startsWith s [] = True"
| "startsWith [] (p # ps) = False"
| "startsWith (c # cs) (p # ps) = (c = p \<and> startsWith cs ps)"

text \<open>\<open>s.includes(p)\<close>: \<open>p\<close> occurs somewhere in \<open>s\<close>.\<close>

fun includesStr :: "string \<Rightarrow> string \<Rightarrow> bool" where
  "includesStr [] p = (p = [])"
| "includesStr (c # cs) p = (startsWith (c # cs) p \<or> includesStr cs p)"

text \<open>\<open>s.lastIndexOf(p)\<close>: the greatest position where \<open>p\<close> occurs in \<open>s\<close>, or -1.\<close>

fun lastIndexOf :: "string \<Rightarrow> string \<Rightarrow> int" where
  "lastIndexOf [] p = (if p = [] then 0 else -1)"
| "lastIndexOf (c # cs) p =
     (let r = lastIndexOf cs p
      in if r \<noteq> -1 then r + 1 else if startsWith (c # cs) p then 0 else -1)"

text \<open>\<open>s.substring(0, i)\<close> for a position \<open>i\<close> that \<open>lastIndexOf\<close> returned.\<close>

definition substring0 :: "string \<Rightarrow> int \<Rightarrow> string" where
  "substring0 s i = take (nat i) s"

text \<open>
  White space and line terminators that \<open>trim\<close> removes, among the code units 0 to 255:
  tab, line feed, vertical tab, form feed, carriage return, space, no-break space.
\<close>

definition isWhiteSpace :: "char \<Rightarrow> bool" where
  "isWhiteSpace c = (of_char c \<in> {9, 10, 11, 12, 13, 32, 160 :: nat})"

definition trim :: "string \<Rightarrow> string" where
  "trim s = rev (dropWhile isWhiteSpace (rev (dropWhile isWhiteSpace s)))"

text \<open>
  \<open>toLowerCase\<close> on the code units 0 to 255: the letters A to Z and the accented capitals
  0xC0 to 0xDE (the multiplication sign 0xD7 apart) move up by 32.
\<close>

definition toLowerChar :: "char \<Rightarrow> char" where
  "toLowerChar c =
     (let n = (of_char c :: nat)
      in if (65 \<le> n \<and> n \<le> 90) \<or> (192 \<le> n \<and> n \<le> 222 \<and> n \<noteq> 215)
         then char_of (n + 32) else c)"

definition toLowerCase :: "string \<Rightarrow> string" where
  "toLowerCase s = map toLowerChar s"

section \<open>Data model\<close>

datatype sensor_type = Temperature | Humidity | Both

datatype sensor_status = Online | Offline | Error

record Sensor =
  s_id :: string
  s_friendlyName :: string
  s_entityId :: string
  s_type :: sensor_type
  s_unit :: string
  s_lastSeen :: jsdate
  s_status :: sensor_status

record SensorReading =
  r_sensorId :: string
  r_timestamp :: jsdate
  r_temperature :: "jsnum option"
  r_humidity :: "jsnum option"

record Attributes =
  friendly_name :: "string option"
  unit_of_measurement :: "string option"
  device_class :: "string option"

record HomeAssistantState =
  entity_id :: string
  state :: string
  attributes :: Attributes
  last_changed :: string
  last_updated :: string

section \<open>Sensor classifier\<close>

text \<open>
  \<open>SensorDiscoveryService.getSensorType\<close>. \<open>unit?.includes(..)\<close> is undefined, hence
  falsy, when the unit is absent.
\<close>

definition getSensorType :: "HomeAssistantState \<Rightarrow> sensor_type option" where
  "getSensorType st =
     (let deviceClass = device_class (attributes st);
          unit = unit_of_measurement (attributes st)
      in if deviceClass = Some ''temperature''
            \<or> (case unit of None \<Rightarrow> False | Some u \<Rightarrow> includesStr u [CHR 0xB0])
         then Some Temperature
         else if deviceClass = Some ''humidity'' \<or> unit = Some ''%''
         then Some Humidity
         else None)"

section \<open>Location aggregator\<close>

record SensorGroup =
  location :: string
  sensorIds :: "string list"
  temperature :: "jsnum option"
  humidity :: "jsnum option"
  battery :: "jsnum option"
  lastSeen :: jsdate
  status :: sensor_status

definition suffixes :: "string list" where
  "suffixes = [''Temperature'', ''temperature'', ''Humidity'', ''humidity'',
     ''Battery'', ''battery'', ''power'']"

text \<open>
  \<open>extractLocation\<close>: the loop over the suffixes returns at the first suffix that occurs
  after a space, cutting the name at the last such occurrence.
\<close>

fun extractLocation_loop :: "string list \<Rightarrow> string \<Rightarrow> string" where
  "extractLocation_loop [] friendlyName = trim friendlyName"
| "extractLocation_loop (suffix # rest) friendlyName =
     (let index = lastIndexOf friendlyName (CHR '' '' # suffix)
      in if index \<noteq> -1 then trim (substring0 friendlyName index)
         else extractLocation_loop rest friendlyName)"

definition extractLocation :: "string \<Rightarrow> string" where
  "extractLocation friendlyName = extractLocation_loop suffixes friendlyName"

text \<open>
  The regular expressions of \<open>isDeviceName\<close> carry the flag \<open>i\<close> and not the flag
  \<open>u\<close>: two code units match when their canonical forms are equal, and the canonical
  form of a code unit outside ASCII is never an ASCII letter. The patterns hold ASCII
  letters only, so it is enough to fold the letters a to z onto A to Z.
\<close>

definition canonicalize :: "char \<Rightarrow> char" where
  "canonicalize c =
     (let n = (of_char c :: nat) in if 97 \<le> n \<and> n \<le> 122 then char_of (n - 32) else c)"

definition matchesAtI :: "string \<Rightarrow> string \<Rightarrow> bool" where
  "matchesAtI s p = startsWith (map canonicalize s) (map canonicalize p)"

fun searchI :: "string \<Rightarrow> string \<Rightarrow> bool" where
  "searchI [] p = matchesAtI [] p"
| "searchI (c # cs) p = (matchesAtI (c # cs) p \<or> searchI cs p)"

text \<open>A word character of \<open>\b\<close>: a letter, a digit or the underscore.\<close>

definition isWordChar :: "char \<Rightarrow> bool" where
  "isWordChar c =
     (let n = (of_char c :: nat)
      in (48 \<le> n \<and> n \<le> 57) \<or> (65 \<le> n \<and> n \<le> 90) \<or> n = 95 \<or> (97 \<le> n \<and> n \<le> 122))"

text \<open>\<open>\b\<close> at position \<open>k\<close>: exactly one of the two neighbours is a word character.\<close>

definition wordBoundary :: "string \<Rightarrow> nat \<Rightarrow> bool" where
  "wordBoundary s k =
     ((0 < k \<and> k \<le> length s \<and> isWordChar (s ! (k - 1)))
        \<noteq> (k < length s \<and> isWordChar (s ! k)))"

text \<open>The dot matches every code unit that is no line terminator.\<close>

definition isLineTerminator :: "char \<Rightarrow> bool" where
  "isLineTerminator c = (of_char c \<in> {10, 13 :: nat})"

text \<open>
  The pattern \<open>\bof\b.*\b(sweden|china|germany)\b\<close>, flag \<open>i\<close>: the word "of" at some
  position \<open>i\<close>, then code units without a line terminator up to a position \<open>j\<close>,
  then one of the three country names as a word.
\<close>

definition matchesOfCountry :: "string \<Rightarrow> bool" where
  "matchesOfCountry s =
     list_ex (\<lambda>i.
        wordBoundary s i \<and> matchesAtI (drop i s) ''of'' \<and> wordBoundary s (i + 2)
        \<and> list_ex (\<lambda>j.
             list_all (\<lambda>k. \<not> isLineTerminator (s ! k)) [i + 2 ..< j]
             \<and> wordBoundary s j
             \<and> list_ex (\<lambda>w. matchesAtI (drop j s) w \<and> wordBoundary s (j + length w))
                  [''sweden'', ''china'', ''germany''])
             [i + 2 ..< Suc (length s)])
       [0 ..< Suc (length s)]"

definition isDeviceName :: "string \<Rightarrow> bool" where
  "isDeviceName loc =
     (matchesAtI loc ''IKEA'' \<or> searchI loc ''dimmer'' \<or> searchI loc ''sensor''
      \<or> matchesOfCountry loc)"

datatype data_type = TemperatureData | HumidityData | BatteryData

definition getSensorDataType :: "string \<Rightarrow> data_type option" where
  "getSensorDataType friendlyName =
     (let lower = toLowerCase friendlyName
      in if includesStr lower ''temperature'' then Some TemperatureData
         else if includesStr lower ''humidity'' then Some HumidityData
         else if includesStr lower ''battery'' \<or> includesStr lower ''power'' then Some BatteryData
         else None)"

text \<open>The group object that the loop creates for a location it sees for the first time.\<close>

definition newGroup :: "string \<Rightarrow> Sensor \<Rightarrow> SensorGroup" where
  "newGroup loc sensor =
     \<lparr>location = loc, sensorIds = [], temperature = None, humidity = None, battery = None,
      lastSeen = s_lastSeen sensor, status = s_status sensor\<rparr>"

definition updateStatus :: "Sensor \<Rightarrow> SensorGroup \<Rightarrow> SensorGroup" where
  "updateStatus sensor grp =
     (if s_status sensor = Error then grp\<lparr>status := Error\<rparr>
      else if s_status sensor = Offline \<and> status grp \<noteq> Error then grp\<lparr>status := Offline\<rparr>
      else grp)"

text \<open>
  \<open>latestReadings\<close> is a plain object and \<open>latestReadings[sensor.id]\<close> a property
  lookup: it finds the object's own property of that name, the latest reading of the
  sensor, and else what the object inherits from \<open>Object.prototype\<close>. The own properties
  are the partial map; the prototype is \<open>Object.prototype\<close>, with the member names below.
  Each inherited value is a function or an object: it is truthy, and it has neither a
  property \<open>temperature\<close> nor a property \<open>humidity\<close>.
\<close>

definition objectPrototypeKeys :: "string list" where
  "objectPrototypeKeys =
     [''constructor'', ''__defineGetter__'', ''__defineSetter__'', ''hasOwnProperty'',
      ''__lookupGetter__'', ''__lookupSetter__'', ''isPrototypeOf'', ''propertyIsEnumerable'',
      ''toString'', ''valueOf'', ''__proto__'', ''toLocaleString'']"

datatype property = Undefined | OwnReading SensorReading | Inherited

definition getProperty :: "(string \<rightharpoonup> SensorReading) \<Rightarrow> string \<Rightarrow> property" where
  "getProperty obj key =
     (case obj key of
        Some reading \<Rightarrow> OwnReading reading
      | None \<Rightarrow> if key \<in> set objectPrototypeKeys then Inherited else Undefined)"

text \<open>\<open>reading.temperature\<close> and \<open>reading.humidity\<close> on a value that is not undefined.\<close>

fun p_temperature :: "property \<Rightarrow> jsnum option" where
  "p_temperature (OwnReading reading) = r_temperature reading"
| "p_temperature _ = None"

fun p_humidity :: "property \<Rightarrow> jsnum option" where
  "p_humidity (OwnReading reading) = r_humidity reading"
| "p_humidity _ = None"

definition updateReading ::
  "(string \<rightharpoonup> SensorReading) \<Rightarrow> Sensor \<Rightarrow> SensorGroup \<Rightarrow> SensorGroup" where
  "updateReading latestReadings sensor grp =
     (let reading = getProperty latestReadings (s_id sensor);
          dataType = getSensorDataType (s_friendlyName sensor)
      in if reading \<noteq> Undefined \<and> dataType \<noteq> None
         then (if dataType = Some TemperatureData
               then grp\<lparr>temperature := p_temperature reading\<rparr>
               else if dataType = Some HumidityData
               then grp\<lparr>humidity := p_humidity reading\<rparr>
               else if dataType = Some BatteryData
               then grp\<lparr>battery := p_humidity reading\<rparr>
               else grp)
         else grp)"

text \<open>What one loop iteration does to the group of the sensor's location.\<close>

definition mergeSensor ::
  "(string \<rightharpoonup> SensorReading) \<Rightarrow> Sensor \<Rightarrow> SensorGroup \<Rightarrow> SensorGroup" where
  "mergeSensor latestReadings sensor grp =
     (let g1 = grp\<lparr>sensorIds := sensorIds grp @ [s_id sensor]\<rparr>;
          g2 = (if date_gt (s_lastSeen sensor) (lastSeen g1)
                then g1\<lparr>lastSeen := s_lastSeen sensor\<rparr> else g1);
          g3 = updateStatus sensor g2
      in updateReading latestReadings sensor g3)"

text \<open>
  The \<open>Map\<close> of groups keeps its keys in insertion order: an association list, where
  \<open>AList.update\<close> replaces the value of a known key in place and appends a new key.
\<close>

definition groupStep ::
  "(string \<rightharpoonup> SensorReading) \<Rightarrow> (string \<times> SensorGroup) list \<Rightarrow> Sensor
     \<Rightarrow> (string \<times> SensorGroup) list" where
  "groupStep latestReadings groups sensor =
     (let loc = extractLocation (s_friendlyName sensor)
      in if isDeviceName loc then groups
         else let grp = (case map_of groups loc of
                             None \<Rightarrow> newGroup loc sensor
                           | Some g \<Rightarrow> g)
              in AList.update loc (mergeSensor latestReadings sensor grp) groups)"

text \<open>
  \<open>Array.prototype.sort\<close> with a comparator is a stable sort: an element moves behind
  another only when the comparator is positive on the pair.
\<close>

fun insertBy :: "('a \<Rightarrow> 'a \<Rightarrow> int) \<Rightarrow> 'a \<Rightarrow> 'a list \<Rightarrow> 'a list" where
  "insertBy cmp x [] = [x]"
| "insertBy cmp x (y # ys) = (if cmp x y \<le> 0 then x # y # ys else y # insertBy cmp x ys)"

definition sortBy :: "('a \<Rightarrow> 'a \<Rightarrow> int) \<Rightarrow> 'a list \<Rightarrow> 'a list" where
  "sortBy cmp xs = foldr (insertBy cmp) xs []"

text \<open>
  \<open>groupSensorsByLocation\<close>. The collation of \<open>String.prototype.localeCompare\<close> belongs
  to the host, so the comparison of two location names is a parameter.
\<close>

definition groupSensorsByLocation ::
  "(string \<Rightarrow> string \<Rightarrow> int) \<Rightarrow> Sensor list \<Rightarrow> (string \<rightharpoonup> SensorReading)
     \<Rightarrow> SensorGroup list" where
  "groupSensorsByLocation localeCompare sensors latestReadings =
     sortBy (\<lambda>a b. localeCompare (location a) (location b))
       (map snd (foldl (groupStep latestReadings) [] sensors))"

text \<open>Comparison by code units, one possible collation.\<close>

definition codeUnitCompare :: "string \<Rightarrow> string \<Rightarrow> int" where
  "codeUnitCompare a b = (if a < b then -1 else if a = b then 0 else 1)"

subsection \<open>Notions used to state the aggregator's properties\<close>

text \<open>The sensors of the input whose extracted location is \<open>loc\<close>, in input order.\<close>

definition membersOf :: "string \<Rightarrow> Sensor list \<Rightarrow> Sensor list" where
  "membersOf loc sensors = filter (\<lambda>s. extractLocation (s_friendlyName s) = loc) sensors"

text \<open>The loop iterations of the members of one location, applied to its group in turn.\<close>

definition mergeAll ::
  "(string \<rightharpoonup> SensorReading) \<Rightarrow> SensorGroup \<Rightarrow> Sensor list \<Rightarrow> SensorGroup" where
  "mergeAll latestReadings g ms = foldl (\<lambda>g s. mergeSensor latestReadings s g) g ms"

definition groupFor ::
  "(string \<rightharpoonup> SensorReading) \<Rightarrow> string \<Rightarrow> Sensor list \<Rightarrow> SensorGroup option" where
  "groupFor latestReadings loc ms =
     (case ms of [] \<Rightarrow> None
      | s # rest \<Rightarrow> Some (mergeAll latestReadings (newGroup loc s) (s # rest)))"

text \<open>The status precedence in the words of the specification: error, else offline, else online.\<close>

definition resolveStatus :: "Sensor list \<Rightarrow> sensor_status" where
  "resolveStatus ms =
     (if \<exists>s \<in> set ms. s_status s = Error then Error
      else if \<exists>s \<in> set ms. s_status s = Offline then Offline
      else Online)"

text \<open>The value a group shows for a data kind, and the field of a reading it is read from.\<close>

fun groupValue :: "data_type \<Rightarrow> SensorGroup \<Rightarrow> jsnum option" where
  "groupValue TemperatureData g = temperature g"
| "groupValue HumidityData g = humidity g"
| "groupValue BatteryData g = battery g"

fun readingField :: "data_type \<Rightarrow> SensorReading \<Rightarrow> jsnum option" where
  "readingField TemperatureData r = r_temperature r"
| "readingField HumidityData r = r_humidity r"
| "readingField BatteryData r = r_humidity r"

fun propertyField :: "data_type \<Rightarrow> property \<Rightarrow> jsnum option" where
  "propertyField TemperatureData p = p_temperature p"
| "propertyField HumidityData p = p_humidity p"
| "propertyField BatteryData p = p_humidity p"

text \<open>
  What the lookups of the sensors of kind \<open>k\<close> among \<open>ms\<close> find, in order, the lookups
  that find nothing left out.
\<close>

definition lookupsOfKind ::
  "data_type \<Rightarrow> (string \<rightharpoonup> SensorReading) \<Rightarrow> Sensor list \<Rightarrow> property list" where
  "lookupsOfKind k latestReadings ms =
     filter (\<lambda>p. p \<noteq> Undefined)
       (map (\<lambda>s. getProperty latestReadings (s_id s))
         (filter (\<lambda>s. getSensorDataType (s_friendlyName s) = Some k) ms))"

text \<open>
  The locations of the sensors that are kept, each once, in the order in which they first
  appear in the input.
\<close>

definition firstAppearance :: "Sensor list \<Rightarrow> string list" where
  "firstAppearance sensors =
     rev (remdups (rev (filter (\<lambda>l. \<not> isDeviceName l)
       (map (\<lambda>s. extractLocation (s_friendlyName s)) sensors))))"

text \<open>
  One collation that \<open>localeCompare\<close> can be, used for the examples: the order of the
  root and English locales on names of ASCII letters, alphabetical whatever the case
  and, between names that differ in case only, lower case first at the first difference.
\<close>

definition asciiLetterCollation :: "string \<Rightarrow> string \<Rightarrow> int" where
  "asciiLetterCollation a b =
     (let ka = map canonicalize a; kb = map canonicalize b;
          ca = map (\<lambda>c. c \<noteq> canonicalize c) a; cb = map (\<lambda>c. c \<noteq> canonicalize c) b
      in if ka < kb then -1 else if kb < ka then 1
         else if cb < ca then -1 else if ca < cb then 1 else 0)"

text \<open>\<open>p\<close> occurs in \<open>s\<close> right after the prefix \<open>u\<close>.\<close>

definition occursAfter :: "string \<Rightarrow> string \<Rightarrow> string \<Rightarrow> bool" where
  "occursAfter u p s = (\<exists>v. s = u @ p @ v)"

section \<open>Persistence\<close>

text \<open>
  The table \<open>sensor_readings\<close> of the schema: the timestamp is not null, the sensor
  identifier refers to a row of the table \<open>sensors\<close>, and the check constraint
  \<open>at_least_one_value\<close> asks for a temperature or a humidity. The serial key and the
  creation time of a row are left out. Of the table \<open>sensors\<close> only the keys matter here.
\<close>

record ReadingRow =
  row_sensor_id :: string
  row_timestamp :: int
  row_temperature :: "jsnum option"
  row_humidity :: "jsnum option"

record Database =
  sensors_keys :: "string list"
  sensor_readings :: "ReadingRow list"

datatype exn = FetchFailed | ApiError | JsonError | QueryError

text \<open>
  \<open>insertReading\<close>. Whether \<open>pool.query\<close> reaches the database is the parameter
  \<open>poolOk\<close>; the database rejects an invalid date and a row that breaks a constraint.
\<close>

definition insertReading :: "bool \<Rightarrow> SensorReading \<Rightarrow> Database \<Rightarrow> exn + Database" where
  "insertReading poolOk reading db =
     (case r_timestamp reading of
        InvalidDate \<Rightarrow> Inl QueryError
      | DateMs t \<Rightarrow>
          if \<not> poolOk then Inl QueryError
          else if r_sensorId reading \<notin> set (sensors_keys db) then Inl QueryError
          else if r_temperature reading = None \<and> r_humidity reading = None then Inl QueryError
          else Inr (db\<lparr>sensor_readings := sensor_readings db @
                 [\<lparr>row_sensor_id = r_sensorId reading, row_timestamp = t,
                   row_temperature = r_temperature reading,
                   row_humidity = r_humidity reading\<rparr>]\<rparr>))"

text \<open>
  \<open>deleteOldReadings\<close>: \<open>DELETE FROM sensor_readings WHERE timestamp < $1\<close>, returning
  the row count.
\<close>

definition deleteOldReadings :: "bool \<Rightarrow> jsdate \<Rightarrow> Database \<Rightarrow> exn + (nat \<times> Database)" where
  "deleteOldReadings poolOk cutoffDate db =
     (case cutoffDate of
        InvalidDate \<Rightarrow> Inl QueryError
      | DateMs cutoff \<Rightarrow>
          if \<not> poolOk then Inl QueryError
          else
            let deleted = filter (\<lambda>r. row_timestamp r < cutoff) (sensor_readings db);
                kept = filter (\<lambda>r. \<not> row_timestamp r < cutoff) (sensor_readings db)
            in Inr (length deleted, db\<lparr>sensor_readings := kept\<rparr>))"

section \<open>Reading fetcher and collection pass\<close>

text \<open>
  What the worker does not own: the answer of the telemetry source to a request, the
  host's \<open>parseFloat\<close> and \<open>Date\<close> parser, and whether a query reaches the database.
\<close>

datatype response = NetworkError | HttpResponse bool "HomeAssistantState option"

record Env =
  fetch_url :: "string \<Rightarrow> response"
  parseFloat :: "string \<Rightarrow> jsnum"
  parseDate :: "string \<Rightarrow> jsdate"
  queryOk :: "SensorReading \<Rightarrow> bool"

text \<open>
  \<open>HomeAssistantClient.fetch\<close>: the request may fail, a response that is not ok raises
  an error, and so does a body that is no JSON (\<open>None\<close>).
\<close>

definition client_fetch :: "Env \<Rightarrow> string \<Rightarrow> string \<Rightarrow> exn + HomeAssistantState" where
  "client_fetch env baseUrl endpoint =
     (case fetch_url env (baseUrl @ endpoint) of
        NetworkError \<Rightarrow> Inl FetchFailed
      | HttpResponse ok body \<Rightarrow>
          if \<not> ok then Inl ApiError
          else (case body of None \<Rightarrow> Inl JsonError | Some st \<Rightarrow> Inr st))"

definition getSensorState :: "Env \<Rightarrow> string \<Rightarrow> string \<Rightarrow> exn + HomeAssistantState" where
  "getSensorState env baseUrl entityId = client_fetch env baseUrl (''/api/states/'' @ entityId)"

text \<open>The reading that \<open>fetchAndStoreSensorData\<close> builds from a state, none for NaN.\<close>

definition buildReading :: "Env \<Rightarrow> Sensor \<Rightarrow> HomeAssistantState \<Rightarrow> SensorReading option" where
  "buildReading env sensor st =
     (let v = parseFloat env (state st)
      in if isNaN v then None
         else Some \<lparr>r_sensorId = s_id sensor,
                    r_timestamp = parseDate env (last_updated st),
                    r_temperature =
                      (if s_type sensor = Temperature \<or> s_type sensor = Both
                       then Some v else None),
                    r_humidity =
                      (if s_type sensor = Humidity \<or> s_type sensor = Both
                       then Some v else None)\<rparr>)"

text \<open>
  \<open>fetchAndStoreSensorData\<close>: everything runs inside \<open>try\<close>, and the handler returns
  false. The result is the boolean and the database after the call.
\<close>

definition fetchAndStoreSensorData ::
  "Env \<Rightarrow> string \<Rightarrow> Sensor \<Rightarrow> Database \<Rightarrow> bool \<times> Database" where
  "fetchAndStoreSensorData env baseUrl sensor db =
     (case getSensorState env baseUrl (s_entityId sensor) of
        Inl e \<Rightarrow> (False, db)
      | Inr st \<Rightarrow>
          (case buildReading env sensor st of
             None \<Rightarrow> (False, db)
           | Some reading \<Rightarrow>
               (case insertReading (queryOk env reading) reading db of
                  Inl e \<Rightarrow> (False, db)
                | Inr db' \<Rightarrow> (True, db'))))"

text \<open>
  \<open>collectData\<close> starts one call per sensor of the roster and awaits them all with
  \<open>Promise.all\<close>. The calls run interleaved and write to the table in the order in
  which they get there, which the worker does not choose: \<open>order\<close> lists the roster
  positions in that order. The booleans come back in roster order, once every call has
  completed; a schedule that leaves a call out never completes the pass (\<open>None\<close>).
  The count that is logged at the end changes nothing.
\<close>

fun run_calls ::
  "Env \<Rightarrow> string \<Rightarrow> Sensor list \<Rightarrow> nat list \<Rightarrow> Database \<Rightarrow> (nat \<times> bool) list \<times> Database" where
  "run_calls env baseUrl sensors [] db = ([], db)"
| "run_calls env baseUrl sensors (i # rest) db =
     (if i < length sensors
      then let (r, db1) = fetchAndStoreSensorData env baseUrl (sensors ! i) db;
               (rs, db2) = run_calls env baseUrl sensors rest db1
           in ((i, r) # rs, db2)
      else run_calls env baseUrl sensors rest db)"

definition collectData ::
  "Env \<Rightarrow> string \<Rightarrow> nat list \<Rightarrow> Sensor list \<Rightarrow> Database \<Rightarrow> (bool list \<times> Database) option" where
  "collectData env baseUrl order currentSensors db =
     (if currentSensors = [] then Some ([], db)
      else let (rs, db') = run_calls env baseUrl currentSensors order db
           in (case those (map (map_of rs) [0 ..< length currentSensors]) of
                 None \<Rightarrow> None
               | Some results \<Rightarrow> Some (results, db')))"

text \<open>A sensor's fetch fails: the request fails, or the state parses to NaN.\<close>

definition fetchFails :: "Env \<Rightarrow> string \<Rightarrow> Sensor \<Rightarrow> bool" where
  "fetchFails env baseUrl sensor =
     (case getSensorState env baseUrl (s_entityId sensor) of
        Inl e \<Rightarrow> True
      | Inr st \<Rightarrow> isNaN (parseFloat env (state st)))"

text \<open>
  The row that stands for a sensor in the table after a pass, stated from the source's
  state: the sensor's state was fetched, its value \<open>v\<close> is a number, its time of last
  update is a date, and the database took the row. The row has the sensor's identifier,
  that time, and \<open>v\<close> in the fields of the sensor's kind.
\<close>

definition storedRow :: "Env \<Rightarrow> string \<Rightarrow> Database \<Rightarrow> Sensor \<Rightarrow> ReadingRow option" where
  "storedRow env baseUrl db sensor =
     (case getSensorState env baseUrl (s_entityId sensor) of
        Inl e \<Rightarrow> None
      | Inr st \<Rightarrow>
          (let v = parseFloat env (state st)
           in case parseDate env (last_updated st) of
                InvalidDate \<Rightarrow> None
              | DateMs t \<Rightarrow>
                  if v = NaN \<or> s_id sensor \<notin> set (sensors_keys db)
                     \<or> \<not> queryOk env
                          \<lparr>r_sensorId = s_id sensor, r_timestamp = DateMs t,
                           r_temperature = (if s_type sensor = Humidity then None else Some v),
                           r_humidity = (if s_type sensor = Temperature then None else Some v)\<rparr>
                  then None
                  else Some \<lparr>row_sensor_id = s_id sensor, row_timestamp = t,
                             row_temperature =
                               (if s_type sensor = Humidity then None else Some v),
                             row_humidity =
                               (if s_type sensor = Temperature then None else Some v)\<rparr>))"

section \<open>Example data\<close>

definition buero :: string where
  "buero = [CHR ''B'', CHR 0xFC, CHR ''r'', CHR ''o'']"

definition buero_temp :: Sensor where
  "buero_temp = \<lparr>s_id = ''buero_temp'', s_friendlyName = buero @ '' Temperature'',
     s_entityId = ''sensor.buero_temperature'', s_type = Temperature,
     s_unit = [CHR 0xB0, CHR ''C''], s_lastSeen = DateMs 1764885600000, s_status = Online\<rparr>"

definition buero_hum :: Sensor where
  "buero_hum = \<lparr>s_id = ''buero_hum'', s_friendlyName = buero @ '' Humidity'',
     s_entityId = ''sensor.buero_humidity'', s_type = Humidity,
     s_unit = ''%'', s_lastSeen = DateMs 1764885600000, s_status = Online\<rparr>"

definition buero_bat :: Sensor where
  "buero_bat = \<lparr>s_id = ''buero_bat'', s_friendlyName = buero @ '' Battery'',
     s_entityId = ''sensor.buero_battery'', s_type = Humidity,
     s_unit = ''%'', s_lastSeen = DateMs 1764835200000, s_status = Online\<rparr>"

definition ikea_dimmer :: Sensor where
  "ikea_dimmer = \<lparr>s_id = ''ikea_dimmer'',
     s_friendlyName = ''IKEA of Sweden RODRET Dimmer Battery'',
     s_entityId = ''sensor.ikea_dimmer_battery'', s_type = Humidity,
     s_unit = ''%'', s_lastSeen = DateMs 1764835200000, s_status = Online\<rparr>"

definition reading_temp :: SensorReading where
  "reading_temp = \<lparr>r_sensorId = ''buero_temp'', r_timestamp = DateMs 1764885600000,
     r_temperature = Some (Finite 22), r_humidity = None\<rparr>"

definition reading_hum :: SensorReading where
  "reading_hum = \<lparr>r_sensorId = ''buero_hum'', r_timestamp = DateMs 1764885600000,
     r_temperature = None, r_humidity = Some (Finite (263 / 5))\<rparr>"

definition reading_bat :: SensorReading where
  "reading_bat = \<lparr>r_sensorId = ''buero_bat'', r_timestamp = DateMs 1764835200000,
     r_temperature = None, r_humidity = Some (Finite 16)\<rparr>"

definition latestReadings3 :: "string \<rightharpoonup> SensorReading" where
  "latestReadings3 = [''buero_temp'' \<mapsto> reading_temp, ''buero_hum'' \<mapsto> reading_hum,
     ''buero_bat'' \<mapsto> reading_bat]"

definition latestReadings1 :: "string \<rightharpoonup> SensorReading" where
  "latestReadings1 = [''buero_temp'' \<mapsto> reading_temp]"

definition zebra :: Sensor where
  "zebra = \<lparr>s_id = ''zebra_temp'', s_friendlyName = ''Zebra Temperature'',
     s_entityId = ''sensor.zebra_temp'', s_type = Temperature,
     s_unit = [CHR 0xB0, CHR ''C''], s_lastSeen = DateMs 1764885600000, s_status = Online\<rparr>"

definition apple :: Sensor where
  "apple = \<lparr>s_id = ''apple_temp'', s_friendlyName = ''apple Temperature'',
     s_entityId = ''sensor.apple_temp'', s_type = Temperature,
     s_unit = [CHR 0xB0, CHR ''C''], s_lastSeen = DateMs 1764885600000, s_status = Online\<rparr>"

definition banana :: Sensor where
  "banana = \<lparr>s_id = ''banana_temp'', s_friendlyName = ''Banana Temperature'',
     s_entityId = ''sensor.banana_temp'', s_type = Temperature,
     s_unit = [CHR 0xB0, CHR ''C''], s_lastSeen = DateMs 1764885600000, s_status = Online\<rparr>"

definition reading_old :: SensorReading where
  "reading_old = \<lparr>r_sensorId = ''buero_temp_old'', r_timestamp = DateMs 1764835200000,
     r_temperature = None, r_humidity = Some (Finite 40)\<rparr>"

definition latestReadings2 :: "string \<rightharpoonup> SensorReading" where
  "latestReadings2 = [''buero_temp'' \<mapsto> reading_temp, ''buero_temp_old'' \<mapsto> reading_old]"

definition state_temp :: HomeAssistantState where
  "state_temp = \<lparr>entity_id = ''sensor.buero_temperature'', state = ''22.0'',
     attributes = \<lparr>friendly_name = Some (buero @ '' Temperature''),
       unit_of_measurement = Some [CHR 0xB0, CHR ''C''], device_class = Some ''temperature''\<rparr>,
     last_changed = ''2025-12-04T22:00:00Z'', last_updated = ''2025-12-04T22:00:00Z''\<rparr>"

definition state_bat :: HomeAssistantState where
  "state_bat = \<lparr>entity_id = ''sensor.buero_battery'', state = ''16'',
     attributes = \<lparr>friendly_name = Some (buero @ '' Battery''),
       unit_of_measurement = Some ''%'', device_class = Some ''battery''\<rparr>,
     last_changed = ''2025-12-04T08:00:00Z'', last_updated = ''2025-12-04T08:00:00Z''\<rparr>"

definition env_example :: Env where
  "env_example =
     \<lparr>fetch_url = (\<lambda>url.
         if url = ''http://ha.local/api/states/sensor.buero_temperature''
         then HttpResponse True (Some state_temp)
         else if url = ''http://ha.local/api/states/sensor.buero_battery''
         then HttpResponse True (Some state_bat)
         else HttpResponse False None),
       parseFloat = (\<lambda>s. if s = ''22.0'' then Finite 22 else if s = ''16'' then Finite 16
                           else NaN),
       parseDate = (\<lambda>s. if s = ''2025-12-04T22:00:00Z'' then DateMs 1764885600000
                          else if s = ''2025-12-04T08:00:00Z'' then DateMs 1764835200000
                          else InvalidDate),
       queryOk = (\<lambda>r. True)\<rparr>"

definition db_example :: Database where
  "db_example = \<lparr>sensors_keys = [''buero_temp'', ''buero_hum'', ''buero_bat''],
     sensor_readings = []\<rparr>"

section \<open>Properties of the classifier\<close>

text \<open>
  C3, as stated: a record whose device class is \<open>humidity\<close> is classified as a humidity
  sensor whatever its unit. It fails for a unit that contains the degree sign.
\<close>

theorem getSensorType_device_class_first_counterexample:
  "device_class (attributes
      \<lparr>entity_id = ''sensor.x'', state = ''50'',
       attributes = \<lparr>friendly_name = None,
         unit_of_measurement = Some [CHR 0xB0, CHR ''C''],
         device_class = Some ''humidity''\<rparr>,
       last_changed = ''2025'', last_updated = ''2025''\<rparr>) = Some ''humidity''
   \<and> getSensorType
      \<lparr>entity_id = ''sensor.x'', state = ''50'',
       attributes = \<lparr>friendly_name = None,
         unit_of_measurement = Some [CHR 0xB0, CHR ''C''],
         device_class = Some ''humidity''\<rparr>,
       last_changed = ''2025'', last_updated = ''2025''\<rparr> = Some Temperature"
  by (simp add: getSensorType_def)

text \<open>
  C3, amended: the kind is temperature when the device class is \<open>temperature\<close> or the unit
  contains the degree sign; otherwise humidity when the device class is \<open>humidity\<close> or the
  unit is exactly the percent sign; otherwise there is no kind. So a record whose device
  class is \<open>humidity\<close> is a humidity sensor exactly when its unit has no degree sign.
\<close>

theorem getSensorType_cases:
  "getSensorType st =
     (if device_class (attributes st) = Some ''temperature''
         \<or> (\<exists>u. unit_of_measurement (attributes st) = Some u \<and> includesStr u [CHR 0xB0])
      then Some Temperature
      else if device_class (attributes st) = Some ''humidity''
         \<or> unit_of_measurement (attributes st) = Some ''%''
      then Some Humidity
      else None)"
  by (auto simp add: getSensorType_def Let_def split: option.splits)

section \<open>Properties of the aggregator, the fetcher and the store\<close>

subsection \<open>The groups of the result, location by location\<close>

lemma mergeAll_Nil [simp]: "mergeAll R g [] = g"
  by (simp add: mergeAll_def)

lemma mergeAll_Cons [simp]: "mergeAll R g (s # ms) = mergeAll R (mergeSensor R s g) ms"
  by (simp add: mergeAll_def)

lemma mergeAll_snoc [simp]: "mergeAll R g (ms @ [s]) = mergeSensor R s (mergeAll R g ms)"
  by (simp add: mergeAll_def)

lemma map_of_groupStep:
  "map_of (groupStep R acc s) l =
     (if isDeviceName l \<or> extractLocation (s_friendlyName s) \<noteq> l then map_of acc l
      else Some (mergeSensor R s (case map_of acc l of None \<Rightarrow> newGroup l s | Some g \<Rightarrow> g)))"
  by (auto simp add: groupStep_def Let_def update_conv')

lemma map_of_groups:
  "map_of (foldl (groupStep R) acc ss) l =
     (if isDeviceName l then map_of acc l
      else case membersOf l ss of
             [] \<Rightarrow> map_of acc l
           | s # rest \<Rightarrow>
               Some (mergeAll R (case map_of acc l of None \<Rightarrow> newGroup l s | Some g \<Rightarrow> g)
                       (s # rest)))"
proof (induction ss arbitrary: acc)
  case Nil
  then show ?case by (simp add: membersOf_def)
next
  case (Cons s ss)
  show ?case
    using Cons.IH [of "groupStep R acc s"]
    by (auto simp add: map_of_groupStep membersOf_def split: list.splits)
qed

lemma distinct_groupStep:
  "distinct (map fst acc) \<Longrightarrow> distinct (map fst (groupStep R acc s))"
  by (simp add: groupStep_def Let_def distinct_update)

lemma distinct_groups:
  "distinct (map fst acc) \<Longrightarrow> distinct (map fst (foldl (groupStep R) acc ss))"
  by (induction ss arbitrary: acc) (simp_all add: distinct_groupStep)

lemma set_insertBy [simp]: "set (insertBy cmp x xs) = insert x (set xs)"
  by (induction xs) auto

lemma set_sortBy [simp]: "set (sortBy cmp xs) = set xs"
  by (induction xs) (simp_all add: sortBy_def)

lemma in_groups_iff:
  "g \<in> set (groupSensorsByLocation cmp ss R)
     \<longleftrightarrow> (\<exists>l. \<not> isDeviceName l \<and> groupFor R l (membersOf l ss) = Some g)"
proof -
  let ?al = "foldl (groupStep R) [] ss"
  have d: "distinct (map fst ?al)" by (simp add: distinct_groups)
  have "g \<in> set (groupSensorsByLocation cmp ss R) \<longleftrightarrow> g \<in> snd ` set ?al"
    by (simp add: groupSensorsByLocation_def)
  also have "\<dots> \<longleftrightarrow> g \<in> ran (map_of ?al)"
    using d by (simp add: ran_distinct)
  also have "\<dots> \<longleftrightarrow> (\<exists>l. map_of ?al l = Some g)"
    by (simp add: ran_def)
  also have "\<dots> \<longleftrightarrow> (\<exists>l. \<not> isDeviceName l \<and> groupFor R l (membersOf l ss) = Some g)"
    by (auto simp add: map_of_groups groupFor_def split: list.splits if_splits)
  finally show ?thesis .
qed

lemma location_mergeSensor [simp]: "location (mergeSensor R s g) = location g"
  by (simp add: mergeSensor_def Let_def updateStatus_def updateReading_def)

lemma location_mergeAll [simp]: "location (mergeAll R g ms) = location g"
  by (induction ms arbitrary: g) simp_all

lemma groupFor_location: "groupFor R l ms = Some g \<Longrightarrow> location g = l"
  by (auto simp add: groupFor_def newGroup_def split: list.splits)

lemma sensorIds_mergeSensor [simp]: "sensorIds (mergeSensor R s g) = sensorIds g @ [s_id s]"
  by (simp add: mergeSensor_def Let_def updateStatus_def updateReading_def)

lemma sensorIds_mergeAll [simp]: "sensorIds (mergeAll R g ms) = sensorIds g @ map s_id ms"
  by (induction ms arbitrary: g) simp_all

lemma groupFor_sensorIds: "groupFor R l ms = Some g \<Longrightarrow> sensorIds g = map s_id ms"
  by (auto simp add: groupFor_def newGroup_def split: list.splits)

text \<open>The group of a location in the result, from the members of the location.\<close>

lemma in_groups_members:
  assumes "g \<in> set (groupSensorsByLocation cmp ss R)"
  shows "\<not> isDeviceName (location g)"
    and "groupFor R (location g) (membersOf (location g) ss) = Some g"
proof -
  from assms obtain l where l: "\<not> isDeviceName l" "groupFor R l (membersOf l ss) = Some g"
    by (auto simp add: in_groups_iff)
  then have "location g = l" by (simp add: groupFor_location)
  with l show "\<not> isDeviceName (location g)"
    and "groupFor R (location g) (membersOf (location g) ss) = Some g" by simp_all
qed

lemma updateReading_fields [simp]:
  "status (updateReading R s g) = status g"
  "location (updateReading R s g) = location g"
  "sensorIds (updateReading R s g) = sensorIds g"
  by (simp_all add: updateReading_def Let_def)

lemma status_mergeSensor:
  "status (mergeSensor R s g) =
     (if s_status s = Error then Error
      else if s_status s = Offline \<and> status g \<noteq> Error then Offline
      else status g)"
  by (auto simp add: mergeSensor_def Let_def updateStatus_def)

lemma status_mergeAll:
  "status (mergeAll R g ms) =
     (if (\<exists>s \<in> set ms. s_status s = Error) \<or> status g = Error then Error
      else if (\<exists>s \<in> set ms. s_status s = Offline) \<or> status g = Offline then Offline
      else Online)"
proof (induction ms arbitrary: g)
  case Nil
  then show ?case by (cases "status g") simp_all
next
  case (Cons s ms)
  show ?case
    by (cases "s_status s"; cases "status g") (auto simp add: Cons.IH status_mergeSensor)
qed

lemma groupFor_status: "groupFor R l ms = Some g \<Longrightarrow> status g = resolveStatus ms"
  by (cases ms) (auto simp add: groupFor_def status_mergeAll status_mergeSensor newGroup_def resolveStatus_def
      split: if_splits)

lemma groupValue_mergeSensor:
  "groupValue k (mergeSensor R s g) =
     (if getSensorDataType (s_friendlyName s) = Some k \<and> getProperty R (s_id s) \<noteq> Undefined
      then propertyField k (getProperty R (s_id s))
      else groupValue k g)"
proof (cases "getSensorDataType (s_friendlyName s)")
  case None
  then show ?thesis
    by (cases k) (simp_all add: mergeSensor_def Let_def updateStatus_def updateReading_def)
next
  case (Some d)
  then show ?thesis
    by (cases k; cases d)
      (simp_all add: mergeSensor_def Let_def updateStatus_def updateReading_def)
qed

lemma lookupsOfKind_snoc:
  "lookupsOfKind k R (ms @ [s]) =
     lookupsOfKind k R ms @
       (if getSensorDataType (s_friendlyName s) = Some k \<and> getProperty R (s_id s) \<noteq> Undefined
        then [getProperty R (s_id s)] else [])"
  by (simp add: lookupsOfKind_def)

lemma groupValue_mergeAll:
  "groupValue k (mergeAll R g ms) =
     (case rev (lookupsOfKind k R ms) of [] \<Rightarrow> groupValue k g | p # _ \<Rightarrow> propertyField k p)"
proof (induction ms rule: rev_induct)
  case Nil
  then show ?case by (simp add: lookupsOfKind_def)
next
  case (snoc s ms)
  then show ?case
    by (simp add: groupValue_mergeSensor lookupsOfKind_snoc)
qed

lemma groupValue_newGroup [simp]: "groupValue k (newGroup l s) = None"
  by (cases k) (simp_all add: newGroup_def)

lemma groupFor_value:
  "groupFor R l ms = Some g \<Longrightarrow>
     groupValue k g =
       (case rev (lookupsOfKind k R ms) of [] \<Rightarrow> None | p # _ \<Rightarrow> propertyField k p)"
  using groupValue_mergeAll [of k R "newGroup l (hd ms)" ms]
  by (cases ms) (auto simp add: groupFor_def simp del: mergeAll_Cons split: list.splits)


lemma getProperty_plain:
  "getProperty Map.empty ''buero_temp'' = Undefined"
  "getProperty Map.empty ''buero_hum'' = Undefined"
  "getProperty Map.empty ''buero_bat'' = Undefined"
  "getProperty Map.empty ''ikea_dimmer'' = Undefined"
  "getProperty Map.empty ''schlafzimmer_hum'' = Undefined"
  "getProperty Map.empty ''constructor'' = Inherited"
  by (simp_all add: getProperty_def objectPrototypeKeys_def)

subsection \<open>The example data, evaluated\<close>

lemmas eval_defs = extractLocation_def suffixes_def substring0_def trim_def isWhiteSpace_def
  isDeviceName_def matchesAtI_def canonicalize_def buero_def

lemma loc_buero_temp: "extractLocation (s_friendlyName buero_temp) = buero"
  by (simp add: buero_temp_def eval_defs)

lemma loc_buero_hum: "extractLocation (s_friendlyName buero_hum) = buero"
  by (simp add: buero_hum_def eval_defs)

lemma loc_buero_bat: "extractLocation (s_friendlyName buero_bat) = buero"
  by (simp add: buero_bat_def eval_defs)

lemma loc_ikea: "extractLocation (s_friendlyName ikea_dimmer) = ''IKEA of Sweden RODRET Dimmer''"
  by (simp add: ikea_dimmer_def eval_defs)

lemma ikea_is_device: "isDeviceName ''IKEA of Sweden RODRET Dimmer''"
  by (simp add: eval_defs)

lemma buero_no_device: "\<not> isDeviceName buero"
  by (simp add: eval_defs matchesOfCountry_def wordBoundary_def isWordChar_def)

lemma dt_buero_temp: "getSensorDataType (s_friendlyName buero_temp) = Some TemperatureData"
  by (simp add: buero_temp_def buero_def getSensorDataType_def toLowerCase_def toLowerChar_def char_of_eq_iff)



subsection \<open>Status precedence\<close>

lemma membersOf_mset:
  "mset ss' = mset ss \<Longrightarrow> set (membersOf l ss') = set (membersOf l ss)"
  by (auto simp add: membersOf_def dest: mset_eq_setD)

lemma resolveStatus_cong: "set ms' = set ms \<Longrightarrow> resolveStatus ms' = resolveStatus ms"
  by (simp add: resolveStatus_def)

lemma groupFor_defined: "ms \<noteq> [] \<Longrightarrow> \<exists>g. groupFor R l ms = Some g"
  by (cases ms) (simp_all add: groupFor_def)

text \<open>
  C2. For every sensor list and map of latest readings, each group of the result lists
  the identifiers of the sensors of its location, its members, and its status is
  \<open>error\<close> if a member has the status \<open>error\<close>, else \<open>offline\<close> if a member has the
  status \<open>offline\<close>, else \<open>online\<close>. Any reordering of the sensor list yields a group
  of the same location with the same status.
\<close>

theorem group_status_precedence:
  assumes "g \<in> set (groupSensorsByLocation cmp sensors R)"
  shows "sensorIds g = map s_id (membersOf (location g) sensors)
     \<and> status g = resolveStatus (membersOf (location g) sensors)
     \<and> (\<forall>sensors'. mset sensors' = mset sensors \<longrightarrow>
           (\<exists>g' \<in> set (groupSensorsByLocation cmp sensors' R).
              location g' = location g \<and> status g' = status g))"
proof -
  let ?l = "location g"
  have nd: "\<not> isDeviceName ?l" and gf: "groupFor R ?l (membersOf ?l sensors) = Some g"
    using assms by (rule in_groups_members)+
  have ids: "sensorIds g = map s_id (membersOf ?l sensors)"
    using gf by (rule groupFor_sensorIds)
  have st: "status g = resolveStatus (membersOf ?l sensors)"
    using gf by (rule groupFor_status)
  have perm: "\<exists>g' \<in> set (groupSensorsByLocation cmp sensors' R).
      location g' = ?l \<and> status g' = status g" if p: "mset sensors' = mset sensors" for sensors'
  proof -
    have eq: "set (membersOf ?l sensors') = set (membersOf ?l sensors)"
      using p by (rule membersOf_mset)
    have "membersOf ?l sensors \<noteq> []" using gf by (auto simp add: groupFor_def)
    with eq have "membersOf ?l sensors' \<noteq> []" by auto
    then obtain g' where g': "groupFor R ?l (membersOf ?l sensors') = Some g'"
      using groupFor_defined by blast
    with nd have "g' \<in> set (groupSensorsByLocation cmp sensors' R)"
      by (auto simp add: in_groups_iff)
    moreover have "location g' = ?l" using g' by (rule groupFor_location)
    moreover have "status g' = status g"
      using groupFor_status [OF g'] st resolveStatus_cong [OF eq] by simp
    ultimately show ?thesis by blast
  qed
  from ids st perm show ?thesis by blast
qed

lemma groups_buero3:
  "groupSensorsByLocation cmp
     [buero_temp, buero_bat\<lparr>s_status := Error\<rparr>, buero_hum\<lparr>s_status := Offline\<rparr>] Map.empty =
   [\<lparr>location = buero, sensorIds = [''buero_temp'', ''buero_bat'', ''buero_hum''],
     temperature = None, humidity = None, battery = None,
     lastSeen = DateMs 1764885600000, status = Error\<rparr>]"
  using loc_buero_temp loc_buero_hum loc_buero_bat buero_no_device
  by (simp add: groupSensorsByLocation_def groupStep_def mergeSensor_def updateStatus_def
      updateReading_def newGroup_def sortBy_def buero_temp_def buero_hum_def buero_bat_def
      getProperty_plain Let_def)

text \<open>
  The members online, error, offline of one location resolve to \<open>error\<close>, in this order
  and in the reverse order.
\<close>

theorem group_status_precedence_witness:
  "\<lparr>location = buero, sensorIds = [''buero_temp'', ''buero_bat'', ''buero_hum''],
     temperature = None, humidity = None, battery = None,
     lastSeen = DateMs 1764885600000, status = Error\<rparr>
     \<in> set (groupSensorsByLocation codeUnitCompare
          [buero_temp, buero_bat\<lparr>s_status := Error\<rparr>, buero_hum\<lparr>s_status := Offline\<rparr>]
          Map.empty)
   \<and> resolveStatus (membersOf buero
          [buero_temp, buero_bat\<lparr>s_status := Error\<rparr>, buero_hum\<lparr>s_status := Offline\<rparr>])
       = Error
   \<and> map status (groupSensorsByLocation codeUnitCompare
          [buero_hum\<lparr>s_status := Offline\<rparr>, buero_bat\<lparr>s_status := Error\<rparr>, buero_temp]
          Map.empty) = [Error]"
proof -
  let ?ss = "[buero_temp, buero_bat\<lparr>s_status := Error\<rparr>, buero_hum\<lparr>s_status := Offline\<rparr>]"
  let ?g = "\<lparr>location = buero, sensorIds = [''buero_temp'', ''buero_bat'', ''buero_hum''],
     temperature = None, humidity = None, battery = None,
     lastSeen = DateMs 1764885600000, status = Error\<rparr>"
  have m: "?g \<in> set (groupSensorsByLocation codeUnitCompare ?ss Map.empty)"
    by (simp add: groups_buero3)
  have r: "resolveStatus (membersOf buero ?ss) = Error"
    using group_status_precedence [OF m] by simp
  have "map status (groupSensorsByLocation codeUnitCompare
          [buero_hum\<lparr>s_status := Offline\<rparr>, buero_bat\<lparr>s_status := Error\<rparr>, buero_temp]
          Map.empty) = [Error]"
    using loc_buero_temp loc_buero_hum loc_buero_bat buero_no_device
    by (simp add: groupSensorsByLocation_def groupStep_def mergeSensor_def updateStatus_def
      updateReading_def newGroup_def sortBy_def buero_temp_def buero_hum_def buero_bat_def
      getProperty_plain Let_def)
  with m r show ?thesis by simp
qed

subsection \<open>Device names\<close>

lemma distinct_ids_member:
  assumes "distinct (map s_id sensors)" "s \<in> set sensors" "t \<in> set sensors" "s_id t = s_id s"
  shows "t = s"
  using assms by (meson distinct_map inj_onD)

text \<open>
  C6. A sensor whose extracted location matches a device-name pattern is left out: no
  group of the result carries its location, and its identifier is in no group's member
  list. Sensor identifiers are the identity of a sensor, so the input carries each one
  once. The sensor named "IKEA of Sweden RODRET Dimmer Battery" is the witness.
\<close>

theorem device_name_discarded:
  assumes "s \<in> set sensors"
    and "distinct (map s_id sensors)"
    and "isDeviceName (extractLocation (s_friendlyName s))"
  shows "\<forall>g \<in> set (groupSensorsByLocation cmp sensors R).
           location g \<noteq> extractLocation (s_friendlyName s) \<and> s_id s \<notin> set (sensorIds g)"
proof
  fix g assume g: "g \<in> set (groupSensorsByLocation cmp sensors R)"
  let ?l = "location g"
  have nd: "\<not> isDeviceName ?l" and gf: "groupFor R ?l (membersOf ?l sensors) = Some g"
    using g by (rule in_groups_members)+
  have neq: "?l \<noteq> extractLocation (s_friendlyName s)"
    using nd assms(3) by auto
  have "s_id s \<notin> set (sensorIds g)"
  proof
    assume "s_id s \<in> set (sensorIds g)"
    then have "s_id s \<in> s_id ` set (membersOf ?l sensors)"
      using groupFor_sensorIds [OF gf] by simp
    then obtain t where t: "t \<in> set sensors" "extractLocation (s_friendlyName t) = ?l"
        "s_id t = s_id s"
      by (auto simp add: membersOf_def)
    then have "t = s" using assms(1,2) distinct_ids_member by blast
    with t neq show False by simp
  qed
  with neq show "?l \<noteq> extractLocation (s_friendlyName s) \<and> s_id s \<notin> set (sensorIds g)"
    by simp
qed

lemma groups_buero_ikea:
  "groupSensorsByLocation cmp [buero_temp, ikea_dimmer] Map.empty =
   [\<lparr>location = buero, sensorIds = [''buero_temp''],
     temperature = None, humidity = None, battery = None,
     lastSeen = DateMs 1764885600000, status = Online\<rparr>]"
  using loc_buero_temp loc_ikea buero_no_device ikea_is_device
  by (simp add: groupSensorsByLocation_def groupStep_def mergeSensor_def updateStatus_def
      updateReading_def newGroup_def sortBy_def buero_temp_def ikea_dimmer_def
      getProperty_plain Let_def)

text \<open>
  The sensor of the test suite named "IKEA of Sweden RODRET Dimmer Battery": its location
  starts with the vendor name, and the result holds the one group of the other sensor.
\<close>

theorem device_name_discarded_witness:
  "s_friendlyName ikea_dimmer = ''IKEA of Sweden RODRET Dimmer Battery''
   \<and> isDeviceName (extractLocation (s_friendlyName ikea_dimmer))
   \<and> map location (groupSensorsByLocation codeUnitCompare [buero_temp, ikea_dimmer] Map.empty)
        = [buero]
   \<and> list_all (\<lambda>g. location g \<noteq> extractLocation (s_friendlyName ikea_dimmer)
                   \<and> s_id ikea_dimmer \<notin> set (sensorIds g))
        (groupSensorsByLocation codeUnitCompare [buero_temp, ikea_dimmer] Map.empty)"
proof -
  have a: "ikea_dimmer \<in> set [buero_temp, ikea_dimmer]" by simp
  have b: "distinct (map s_id [buero_temp, ikea_dimmer])"
    by (simp add: buero_temp_def ikea_dimmer_def)
  have c: "isDeviceName (extractLocation (s_friendlyName ikea_dimmer))"
    by (simp add: loc_ikea ikea_is_device)
  have d: "s_friendlyName ikea_dimmer = ''IKEA of Sweden RODRET Dimmer Battery''"
    by (simp add: ikea_dimmer_def)
  have e: "map location (groupSensorsByLocation codeUnitCompare [buero_temp, ikea_dimmer] Map.empty)
        = [buero]"
    by (simp add: groups_buero_ikea)
  from device_name_discarded [OF a b c, of codeUnitCompare Map.empty] c d e
  show ?thesis by (simp add: list_all_iff)
qed

subsection \<open>Displayed values\<close>


lemma fixture_fields:
  "s_id buero_temp = ''buero_temp''" "s_id buero_hum = ''buero_hum''"
  "s_id buero_bat = ''buero_bat''" "s_id ikea_dimmer = ''ikea_dimmer''"
  "s_status buero_temp = Online" "s_status buero_hum = Online" "s_status buero_bat = Online"
  "s_lastSeen buero_temp = DateMs 1764885600000" "s_lastSeen buero_hum = DateMs 1764885600000"
  "s_lastSeen buero_bat = DateMs 1764835200000"
  by (simp_all add: buero_temp_def buero_hum_def buero_bat_def ikea_dimmer_def)

lemma latestReadings3_lookup:
  "getProperty latestReadings3 ''buero_temp'' = OwnReading reading_temp"
  "getProperty latestReadings3 ''buero_hum'' = OwnReading reading_hum"
  "getProperty latestReadings3 ''buero_bat'' = OwnReading reading_bat"
  "latestReadings3 ''buero_temp'' = Some reading_temp"
  "latestReadings3 ''buero_hum'' = Some reading_hum"
  "latestReadings3 ''buero_bat'' = Some reading_bat"
  by (simp_all add: latestReadings3_def getProperty_def)

lemma latestReadings1_lookup:
  "getProperty latestReadings1 ''buero_temp'' = OwnReading reading_temp"
  "getProperty latestReadings1 ''constructor'' = Inherited"
  "latestReadings1 ''buero_temp'' = Some reading_temp"
  "latestReadings1 ''constructor'' = None"
  by (simp_all add: latestReadings1_def getProperty_def objectPrototypeKeys_def)

lemmas group_eval = groupSensorsByLocation_def groupStep_def mergeSensor_def updateStatus_def
  updateReading_def newGroup_def sortBy_def Let_def


lemma groups_constructor:
  "groupSensorsByLocation cmp [buero_temp, buero_temp\<lparr>s_id := ''constructor''\<rparr>]
     latestReadings1 =
   [\<lparr>location = buero, sensorIds = [''buero_temp'', ''constructor''],
     temperature = None, humidity = None, battery = None,
     lastSeen = DateMs 1764885600000, status = Online\<rparr>]"
  by (simp add: group_eval loc_buero_temp buero_no_device dt_buero_temp fixture_fields
      latestReadings1_lookup)


subsection \<open>Order of the result\<close>

lemma sorted_insertBy:
  assumes total: "\<forall>a b. 0 < cmp a b \<longrightarrow> cmp b a \<le> 0"
    and trans: "\<forall>a b c. cmp a b \<le> 0 \<and> cmp b c \<le> 0 \<longrightarrow> cmp a c \<le> 0"
  shows "sorted_wrt (\<lambda>a b. cmp a b \<le> 0) xs
     \<Longrightarrow> sorted_wrt (\<lambda>a b. cmp a b \<le> 0) (insertBy cmp x xs)"
proof (induction xs)
  case Nil
  then show ?case by simp
next
  case (Cons y ys)
  from Cons.prems have sy: "\<forall>z \<in> set ys. cmp y z \<le> 0"
    and sys: "sorted_wrt (\<lambda>a b. cmp a b \<le> 0) ys" by simp_all
  show ?case
  proof (cases "cmp x y \<le> 0")
    case True
    have "cmp x z \<le> 0" if "z \<in> set ys" for z
    proof -
      from that sy have "cmp y z \<le> 0" by blast
      with True trans show ?thesis by blast
    qed
    with True sy sys show ?thesis by simp
  next
    case False
    then have "0 < cmp x y" by simp
    with total have yx: "cmp y x \<le> 0" by blast
    have "sorted_wrt (\<lambda>a b. cmp a b \<le> 0) (insertBy cmp x ys)"
      using sys by (rule Cons.IH)
    with False yx sy show ?thesis by simp
  qed
qed

lemma sorted_sortBy:
  assumes "\<forall>a b. 0 < cmp a b \<longrightarrow> cmp b a \<le> 0"
    and "\<forall>a b c. cmp a b \<le> 0 \<and> cmp b c \<le> 0 \<longrightarrow> cmp a c \<le> 0"
  shows "sorted_wrt (\<lambda>a b. cmp a b \<le> 0) (sortBy cmp xs)"
  by (induction xs) (simp_all add: sortBy_def sorted_insertBy [OF assms])

lemma mset_insertBy [simp]: "mset (insertBy cmp x xs) = add_mset x (mset xs)"
  by (induction xs) simp_all

lemma mset_sortBy [simp]: "mset (sortBy cmp xs) = mset xs"
  by (induction xs) (simp_all add: sortBy_def)

lemma in_set_updateD:
  "p \<in> set (AList.update k v al) \<Longrightarrow> p = (k, v) \<or> p \<in> set al"
  by (induction al) (auto split: if_splits)

lemma location_groupStep:
  assumes "\<forall>(k, g) \<in> set acc. location g = k" and "(k, g) \<in> set (groupStep R acc s)"
  shows "location g = k"
proof (cases "isDeviceName (extractLocation (s_friendlyName s))")
  case True
  then show ?thesis using assms by (auto simp add: groupStep_def)
next
  case False
  let ?l = "extractLocation (s_friendlyName s)"
  let ?grp = "case map_of acc ?l of None \<Rightarrow> newGroup ?l s | Some g' \<Rightarrow> g'"
  have grp: "location ?grp = ?l"
  proof (cases "map_of acc ?l")
    case None
    then show ?thesis by (simp add: newGroup_def)
  next
    case (Some g')
    then have "(?l, g') \<in> set acc" by (rule map_of_SomeD)
    with assms(1) Some show ?thesis by auto
  qed
  from False assms(2) have "(k, g) \<in> set (AList.update ?l (mergeSensor R s ?grp) acc)"
    by (simp add: groupStep_def Let_def)
  then have "(k, g) = (?l, mergeSensor R s ?grp) \<or> (k, g) \<in> set acc"
    by (rule in_set_updateD)
  then show ?thesis
  proof
    assume "(k, g) = (?l, mergeSensor R s ?grp)"
    then show ?thesis using grp by simp
  next
    assume "(k, g) \<in> set acc"
    with assms(1) show ?thesis by auto
  qed
qed

lemma groups_invariant:
  "\<forall>(k, g) \<in> set acc. location g = k \<Longrightarrow>
   \<forall>(k, g) \<in> set (foldl (groupStep R) acc ss). location g = k"
proof (induction ss arbitrary: acc)
  case Nil
  then show ?case by simp
next
  case (Cons s ss)
  have "\<forall>(k, g) \<in> set (groupStep R acc s). location g = k"
    using location_groupStep [OF Cons.prems] by blast
  then show ?case using Cons.IH by simp
qed

lemma locations_are_keys:
  "map location (map snd (foldl (groupStep R) [] ss)) = map fst (foldl (groupStep R) [] ss)"
  using groups_invariant [of "[]" R ss] by (auto intro: map_cong [OF refl])

lemma filter_insertBy:
  assumes "\<forall>x y. P x \<and> P y \<longrightarrow> c x y \<le> 0"
  shows "filter P (insertBy c x ys) = (if P x then x # filter P ys else filter P ys)"
proof (induction ys)
  case Nil
  then show ?case by simp
next
  case (Cons y ys)
  show ?case
  proof (cases "c x y \<le> 0")
    case True
    then show ?thesis by simp
  next
    case False
    then have "\<not> (P x \<and> P y)" using assms by blast
    with False Cons show ?thesis by auto
  qed
qed

lemma filter_sortBy:
  assumes "\<forall>x y. P x \<and> P y \<longrightarrow> c x y \<le> 0"
  shows "filter P (sortBy c xs) = filter P xs"
proof (induction xs)
  case Nil
  then show ?case by (simp add: sortBy_def)
next
  case (Cons x xs)
  have "sortBy c (x # xs) = insertBy c x (sortBy c xs)" by (simp add: sortBy_def)
  then show ?case using Cons filter_insertBy [OF assms] by simp
qed

lemma keys_groupStep:
  "map fst (groupStep R al s) =
     (if isDeviceName (extractLocation (s_friendlyName s))
         \<or> extractLocation (s_friendlyName s) \<in> set (map fst al)
      then map fst al else map fst al @ [extractLocation (s_friendlyName s)])"
  by (simp add: groupStep_def Let_def update_keys)

lemma firstAppearance_snoc:
  "firstAppearance (ss @ [s]) =
     (if isDeviceName (extractLocation (s_friendlyName s))
         \<or> extractLocation (s_friendlyName s) \<in> set (firstAppearance ss)
      then firstAppearance ss else firstAppearance ss @ [extractLocation (s_friendlyName s)])"
  by (simp add: firstAppearance_def)

lemma keys_firstAppearance: "map fst (foldl (groupStep R) [] ss) = firstAppearance ss"
proof (induction ss rule: rev_induct)
  case Nil
  then show ?case by (simp add: firstAppearance_def)
next
  case (snoc s ss)
  then show ?case by (simp add: keys_groupStep firstAppearance_snoc)
qed

lemma locations_firstAppearance:
  "map location (map snd (foldl (groupStep R) [] ss)) = firstAppearance ss"
  by (simp only: locations_are_keys keys_firstAppearance)

lemma loc_zoo:
  "extractLocation (s_friendlyName zebra) = ''Zebra''"
  "extractLocation (s_friendlyName apple) = ''apple''"
  "extractLocation (s_friendlyName banana) = ''Banana''"
  by (simp_all add: zebra_def apple_def banana_def eval_defs)

lemma zoo_no_device:
  "\<not> isDeviceName ''Zebra''" "\<not> isDeviceName ''apple''" "\<not> isDeviceName ''Banana''"
  by (simp_all add: eval_defs matchesOfCountry_def wordBoundary_def isWordChar_def)

lemma eq_char_of_iff: "c = char_of (n::nat) \<longleftrightarrow> of_char c = take_bit 8 n"
  using char_of_eq_iff [of n c] by auto

lemma zoo_collation:
  "asciiLetterCollation ''apple'' ''Banana'' = -1"
  "asciiLetterCollation ''Zebra'' ''apple'' = 1"
  "asciiLetterCollation ''Zebra'' ''Banana'' = 1"
  by (simp_all add: asciiLetterCollation_def Let_def canonicalize_def less_char_def
      char_of_eq_iff eq_char_of_iff)

lemma zoo_fields:
  "s_id zebra = ''zebra_temp''" "s_id apple = ''apple_temp''" "s_id banana = ''banana_temp''"
  "s_status zebra = Online" "s_status apple = Online" "s_status banana = Online"
  by (simp_all add: zebra_def apple_def banana_def)

lemma zoo_lookup:
  "getProperty Map.empty ''zebra_temp'' = Undefined"
  "getProperty Map.empty ''apple_temp'' = Undefined"
  "getProperty Map.empty ''banana_temp'' = Undefined"
  by (simp_all add: getProperty_def objectPrototypeKeys_def)

lemma zoo_groups:
  "map location (groupSensorsByLocation asciiLetterCollation [zebra, apple, banana] Map.empty) =
     [''apple'', ''Banana'', ''Zebra'']"
  by (simp add: group_eval loc_zoo zoo_no_device zoo_collation zoo_fields zoo_lookup)

lemma zoo_first: "firstAppearance [zebra, apple, banana] = [''Zebra'', ''apple'', ''Banana'']"
  by (simp add: firstAppearance_def loc_zoo zoo_no_device)

text \<open>
  C9, as stated: the result is in lexicographic order of the location names. The sort
  compares with \<open>localeCompare\<close>, the collation of the host. In the collation of the
  root and English locales, the locations Zebra, apple, Banana come out as apple, Banana,
  Zebra, while by code units "apple" comes after "Banana".
\<close>

theorem groups_not_code_unit_sorted_counterexample:
  "map location (groupSensorsByLocation asciiLetterCollation [zebra, apple, banana] Map.empty) =
     [''apple'', ''Banana'', ''Zebra'']
   \<and> codeUnitCompare ''apple'' ''Banana'' = 1"
  by (simp add: zoo_groups codeUnitCompare_def less_char_def)

text \<open>
  C9, amended: the result is sorted by location name in the order of the comparison that
  the sort is given, the host's \<open>localeCompare\<close> (a total preorder, as a collation is),
  and not in the order of the code units. It holds one group for each location of a
  sensor that is no device name. Groups whose names the comparison ties keep the order
  in which their locations first appear in the input: no other sort is applied.
\<close>

theorem groups_sorted_by_location:
  assumes "\<forall>a b. 0 < cmp a b \<longrightarrow> cmp b a \<le> 0"
    and "\<forall>a b c. cmp a b \<le> 0 \<and> cmp b c \<le> 0 \<longrightarrow> cmp a c \<le> 0"
  shows "sorted_wrt (\<lambda>a b. cmp (location a) (location b) \<le> 0)
           (groupSensorsByLocation cmp sensors R)
     \<and> distinct (map location (groupSensorsByLocation cmp sensors R))
     \<and> set (map location (groupSensorsByLocation cmp sensors R)) =
         {l. \<not> isDeviceName l \<and> membersOf l sensors \<noteq> []}
     \<and> (\<forall>l. filter (\<lambda>x. cmp x l \<le> 0 \<and> cmp l x \<le> 0)
               (map location (groupSensorsByLocation cmp sensors R)) =
             filter (\<lambda>x. cmp x l \<le> 0 \<and> cmp l x \<le> 0) (firstAppearance sensors))"
proof -
  let ?c = "\<lambda>a b. cmp (location a) (location b)"
  let ?al = "foldl (groupStep R) [] sensors"
  have t: "\<forall>a b. 0 < ?c a b \<longrightarrow> ?c b a \<le> 0" using assms(1) by blast
  have tr: "\<forall>a b c. ?c a b \<le> 0 \<and> ?c b c \<le> 0 \<longrightarrow> ?c a c \<le> 0" using assms(2) by blast
  have s: "sorted_wrt (\<lambda>a b. ?c a b \<le> 0) (groupSensorsByLocation cmp sensors R)"
    unfolding groupSensorsByLocation_def by (rule sorted_sortBy [OF t tr])
  have "mset (map location (groupSensorsByLocation cmp sensors R)) =
      mset (map location (map snd ?al))"
    unfolding groupSensorsByLocation_def by (simp only: mset_map mset_sortBy)
  also have "\<dots> = mset (map fst ?al)" by (simp only: locations_are_keys)
  finally have "mset (map location (groupSensorsByLocation cmp sensors R)) = mset (map fst ?al)" .
  moreover have "distinct (map fst ?al)" by (simp add: distinct_groups)
  ultimately have d: "distinct (map location (groupSensorsByLocation cmp sensors R))"
    by (metis mset_eq_imp_distinct_iff)
  have e: "set (map location (groupSensorsByLocation cmp sensors R)) =
         {l. \<not> isDeviceName l \<and> membersOf l sensors \<noteq> []}"
  proof (rule set_eqI)
    fix l
    have "l \<in> set (map location (groupSensorsByLocation cmp sensors R))
      \<longleftrightarrow> (\<exists>g. g \<in> set (groupSensorsByLocation cmp sensors R) \<and> location g = l)"
      by auto
    also have "\<dots> \<longleftrightarrow> (\<exists>g. (\<exists>l'. \<not> isDeviceName l' \<and> groupFor R l' (membersOf l' sensors) = Some g)
               \<and> location g = l)"
      by (simp only: in_groups_iff)
    also have "\<dots> \<longleftrightarrow> \<not> isDeviceName l \<and> membersOf l sensors \<noteq> []"
    proof
      assume "\<exists>g. (\<exists>l'. \<not> isDeviceName l' \<and> groupFor R l' (membersOf l' sensors) = Some g)
               \<and> location g = l"
      then obtain g l' where h: "\<not> isDeviceName l'"
          "groupFor R l' (membersOf l' sensors) = Some g" "location g = l"
        by blast
      then have "l' = l" using groupFor_location by blast
      with h show "\<not> isDeviceName l \<and> membersOf l sensors \<noteq> []"
        by (auto simp add: groupFor_def)
    next
      assume h: "\<not> isDeviceName l \<and> membersOf l sensors \<noteq> []"
      then obtain g where g: "groupFor R l (membersOf l sensors) = Some g"
        using groupFor_defined by blast
      then have "location g = l" by (rule groupFor_location)
      with h g show "\<exists>g. (\<exists>l'. \<not> isDeviceName l' \<and> groupFor R l' (membersOf l' sensors) = Some g)
               \<and> location g = l"
        by blast
    qed
    finally show "l \<in> set (map location (groupSensorsByLocation cmp sensors R))
      \<longleftrightarrow> l \<in> {l. \<not> isDeviceName l \<and> membersOf l sensors \<noteq> []}" by simp
  qed
  have st: "filter (\<lambda>x. cmp x l \<le> 0 \<and> cmp l x \<le> 0)
               (map location (groupSensorsByLocation cmp sensors R)) =
             filter (\<lambda>x. cmp x l \<le> 0 \<and> cmp l x \<le> 0) (firstAppearance sensors)" for l
  proof -
    let ?P = "\<lambda>g. cmp (location g) l \<le> 0 \<and> cmp l (location g) \<le> 0"
    have tie: "\<forall>x y. ?P x \<and> ?P y \<longrightarrow> ?c x y \<le> 0"
    proof (intro allI impI)
      fix x y assume "?P x \<and> ?P y"
      then have "cmp (location x) l \<le> 0 \<and> cmp l (location y) \<le> 0" by simp
      with assms(2) show "cmp (location x) (location y) \<le> 0" by blast
    qed
    have "filter ?P (groupSensorsByLocation cmp sensors R) = filter ?P (map snd ?al)"
      unfolding groupSensorsByLocation_def by (rule filter_sortBy [OF tie])
    then have "map location (filter ?P (groupSensorsByLocation cmp sensors R)) =
        map location (filter ?P (map snd ?al))" by simp
    then have "filter (\<lambda>x. cmp x l \<le> 0 \<and> cmp l x \<le> 0)
          (map location (groupSensorsByLocation cmp sensors R)) =
        filter (\<lambda>x. cmp x l \<le> 0 \<and> cmp l x \<le> 0) (map location (map snd ?al))"
      by (simp only: filter_map comp_def)
    then show ?thesis by (simp only: locations_firstAppearance)
  qed
  show ?thesis
  proof (intro conjI allI)
    show "sorted_wrt (\<lambda>a b. cmp (location a) (location b) \<le> 0)
           (groupSensorsByLocation cmp sensors R)" by (rule s)
    show "distinct (map location (groupSensorsByLocation cmp sensors R))" by (rule d)
    show "set (map location (groupSensorsByLocation cmp sensors R)) =
         {l. \<not> isDeviceName l \<and> membersOf l sensors \<noteq> []}" by (rule e)
    show "filter (\<lambda>x. cmp x l \<le> 0 \<and> cmp l x \<le> 0)
               (map location (groupSensorsByLocation cmp sensors R)) =
             filter (\<lambda>x. cmp x l \<le> 0 \<and> cmp l x \<le> 0) (firstAppearance sensors)" for l
      by (rule st)
  qed
qed

lemma asciiLetterCollation_le:
  "asciiLetterCollation a b \<le> 0 \<longleftrightarrow>
     map canonicalize a < map canonicalize b
     \<or> (map canonicalize a = map canonicalize b
        \<and> map (\<lambda>c. c \<noteq> canonicalize c) b \<le> map (\<lambda>c. c \<noteq> canonicalize c) a)"
proof -
  define ka kb where "ka = map canonicalize a" and "kb = map canonicalize b"
  define ca cb where "ca = map (\<lambda>c. c \<noteq> canonicalize c) a"
    and "cb = map (\<lambda>c. c \<noteq> canonicalize c) b"
  have "asciiLetterCollation a b =
      (if ka < kb then -1 else if kb < ka then 1
       else if cb < ca then -1 else if ca < cb then 1 else 0)"
    by (simp add: asciiLetterCollation_def Let_def ka_def kb_def ca_def cb_def)
  moreover have "ka < kb \<or> kb < ka \<or> ka = kb" using less_linear [of ka kb] by blast
  moreover have "cb < ca \<or> ca < cb \<or> ca = cb" using less_linear [of cb ca] by blast
  ultimately have "asciiLetterCollation a b \<le> 0 \<longleftrightarrow> ka < kb \<or> (ka = kb \<and> cb \<le> ca)"
    by (cases "ka < kb"; cases "kb < ka"; cases "cb < ca"; cases "ca < cb") auto
  then show ?thesis by (simp only: ka_def kb_def ca_def cb_def)
qed

lemma lex_pair_total:
  fixes ka kb :: "'a::linorder" and ca cb :: "'b::linorder"
  shows "(ka < kb \<or> (ka = kb \<and> cb \<le> ca)) \<or> (kb < ka \<or> (kb = ka \<and> ca \<le> cb))"
  by (cases "ka < kb"; cases "kb < ka"; cases "cb \<le> ca") auto

lemma lex_pair_trans:
  fixes ka kb kc :: "'a::linorder" and ca cb cc :: "'b::linorder"
  assumes "ka < kb \<or> (ka = kb \<and> cb \<le> ca)" and "kb < kc \<or> (kb = kc \<and> cc \<le> cb)"
  shows "ka < kc \<or> (ka = kc \<and> cc \<le> ca)"
  using assms by (elim disjE conjE) auto

lemma asciiLetterCollation_total:
  "\<forall>a b. 0 < asciiLetterCollation a b \<longrightarrow> asciiLetterCollation b a \<le> 0"
proof (intro allI impI)
  fix a b :: string
  assume "0 < asciiLetterCollation a b"
  then have "\<not> asciiLetterCollation a b \<le> 0" by simp
  then show "asciiLetterCollation b a \<le> 0"
    unfolding asciiLetterCollation_le
    using lex_pair_total [of "map canonicalize a" "map canonicalize b"
        "map (\<lambda>c. c \<noteq> canonicalize c) b" "map (\<lambda>c. c \<noteq> canonicalize c) a"]
    by blast
qed

lemma asciiLetterCollation_trans:
  "\<forall>a b c. asciiLetterCollation a b \<le> 0 \<and> asciiLetterCollation b c \<le> 0
     \<longrightarrow> asciiLetterCollation a c \<le> 0"
proof (intro allI impI)
  fix a b c :: string
  assume h: "asciiLetterCollation a b \<le> 0 \<and> asciiLetterCollation b c \<le> 0"
  show "asciiLetterCollation a c \<le> 0"
    unfolding asciiLetterCollation_le
    by (rule lex_pair_trans [of _ "map canonicalize b" "map (\<lambda>c. c \<noteq> canonicalize c) b"])
      (use h in \<open>simp_all only: asciiLetterCollation_le\<close>)
qed

text \<open>
  Zebra, apple, Banana are sorted by the collation; under a comparison that ties all
  names they stay in the order of first appearance.
\<close>

theorem groups_sorted_by_location_witness:
  "map location (groupSensorsByLocation asciiLetterCollation [zebra, apple, banana] Map.empty) =
     [''apple'', ''Banana'', ''Zebra'']
   \<and> sorted_wrt (\<lambda>a b. asciiLetterCollation (location a) (location b) \<le> 0)
        (groupSensorsByLocation asciiLetterCollation [zebra, apple, banana] Map.empty)
   \<and> firstAppearance [zebra, apple, banana] = [''Zebra'', ''apple'', ''Banana'']
   \<and> map location (groupSensorsByLocation (\<lambda>a b. 0) [zebra, apple, banana] Map.empty) =
        [''Zebra'', ''apple'', ''Banana'']"
proof -
  have s: "sorted_wrt (\<lambda>a b. asciiLetterCollation (location a) (location b) \<le> 0)
        (groupSensorsByLocation asciiLetterCollation [zebra, apple, banana] Map.empty)"
    using groups_sorted_by_location [OF asciiLetterCollation_total asciiLetterCollation_trans,
        of "[zebra, apple, banana]" Map.empty]
    by (rule conjunct1)
  have z1: "\<forall>a b :: string. 0 < (0::int) \<longrightarrow> (0::int) \<le> 0" by simp
  have z2: "\<forall>a b c :: string. (0::int) \<le> 0 \<and> (0::int) \<le> 0 \<longrightarrow> (0::int) \<le> 0" by simp
  have "filter (\<lambda>x. (0::int) \<le> 0 \<and> (0::int) \<le> 0)
          (map location (groupSensorsByLocation (\<lambda>a b. 0) [zebra, apple, banana] Map.empty)) =
        filter (\<lambda>x. (0::int) \<le> 0 \<and> (0::int) \<le> 0) (firstAppearance [zebra, apple, banana])"
    by (rule groups_sorted_by_location [of "\<lambda>a b. 0", OF z1 z2, THEN conjunct2, THEN conjunct2,
          THEN conjunct2, rule_format])
  then have t: "map location (groupSensorsByLocation (\<lambda>a b. 0) [zebra, apple, banana] Map.empty) =
        firstAppearance [zebra, apple, banana]" by simp
  from s t show ?thesis by (simp add: zoo_groups zoo_first)
qed

subsection \<open>Several members of one kind\<close>

lemma lookupsOfKind_map:
  "lookupsOfKind k R ms =
     map (\<lambda>s. getProperty R (s_id s))
       (filter (\<lambda>s. getSensorDataType (s_friendlyName s) = Some k
                    \<and> getProperty R (s_id s) \<noteq> Undefined) ms)"
  by (induction ms) (simp_all add: lookupsOfKind_def)

lemma last_lookup:
  assumes "xs \<noteq> []"
  shows "(case rev (map f xs) of [] \<Rightarrow> a | p # _ \<Rightarrow> h p) = h (f (last xs))"
proof -
  from assms obtain ys y where "xs = ys @ [y]" by (metis rev_exhaust)
  then show ?thesis by simp
qed

lemma propertyField_own [simp]: "propertyField k (OwnReading r) = readingField k r"
  by (cases k) simp_all

lemma propertyField_inherited [simp]: "propertyField k Inherited = None"
  by (cases k) simp_all

text \<open>
  C10. When lookups of members of a group of the same data kind find something, the
  group's value of that kind is the field of what the lookup of the last of them in the
  input finds. In particular, when the members of the kind each have a latest reading,
  the value is the field of the latest reading of the last of them, also when that
  reading has no such field, so that the value becomes undefined. For two such sensors
  of one location, the order of the input decides whose reading is shown.
\<close>

theorem group_value_last_wins:
  "(g \<in> set (groupSensorsByLocation cmp sensors R)
      \<and> ks = filter (\<lambda>s. getSensorDataType (s_friendlyName s) = Some k
                         \<and> getProperty R (s_id s) \<noteq> Undefined)
               (membersOf (location g) sensors)
      \<and> ks \<noteq> []
      \<longrightarrow> groupValue k g = propertyField k (getProperty R (s_id (last ks))))
   \<and> (g \<in> set (groupSensorsByLocation cmp sensors R)
      \<and> ts = filter (\<lambda>s. getSensorDataType (s_friendlyName s) = Some k)
               (membersOf (location g) sensors)
      \<and> ts \<noteq> [] \<and> (\<forall>s \<in> set ts. R (s_id s) \<noteq> None)
      \<longrightarrow> (\<exists>r. R (s_id (last ts)) = Some r \<and> groupValue k g = readingField k r))
   \<and> (extractLocation (s_friendlyName a) = l \<and> extractLocation (s_friendlyName b) = l
      \<and> \<not> isDeviceName l
      \<and> getSensorDataType (s_friendlyName a) = Some k
      \<and> getSensorDataType (s_friendlyName b) = Some k
      \<and> R (s_id a) = Some ra \<and> R (s_id b) = Some rb
      \<longrightarrow> map (groupValue k) (groupSensorsByLocation cmp [a, b] R) = [readingField k rb]
        \<and> map (groupValue k) (groupSensorsByLocation cmp [b, a] R) = [readingField k ra])"
proof (intro conjI impI)
  assume h: "g \<in> set (groupSensorsByLocation cmp sensors R)
      \<and> ks = filter (\<lambda>s. getSensorDataType (s_friendlyName s) = Some k
                         \<and> getProperty R (s_id s) \<noteq> Undefined)
               (membersOf (location g) sensors)
      \<and> ks \<noteq> []"
  let ?ms = "membersOf (location g) sensors"
  have "g \<in> set (groupSensorsByLocation cmp sensors R)" using h by (elim conjE)
  then have gf: "groupFor R (location g) ?ms = Some g"
    by (rule in_groups_members(2))
  have kdef: "ks = filter (\<lambda>s. getSensorDataType (s_friendlyName s) = Some k
                         \<and> getProperty R (s_id s) \<noteq> Undefined) ?ms"
    using h by (elim conjE)
  have ne: "ks \<noteq> []" using h by (elim conjE)
  have ks: "lookupsOfKind k R ?ms = map (\<lambda>s. getProperty R (s_id s)) ks"
    unfolding kdef by (rule lookupsOfKind_map)
  show "groupValue k g = propertyField k (getProperty R (s_id (last ks)))"
    using groupFor_value [OF gf, of k] last_lookup [OF ne]
    by (simp only: ks)
next
  assume h: "g \<in> set (groupSensorsByLocation cmp sensors R)
      \<and> ts = filter (\<lambda>s. getSensorDataType (s_friendlyName s) = Some k)
               (membersOf (location g) sensors)
      \<and> ts \<noteq> [] \<and> (\<forall>s \<in> set ts. R (s_id s) \<noteq> None)"
  let ?ms = "membersOf (location g) sensors"
  have "g \<in> set (groupSensorsByLocation cmp sensors R)" using h by (elim conjE)
  then have gf: "groupFor R (location g) ?ms = Some g"
    by (rule in_groups_members(2))
  have ne: "ts \<noteq> []" using h by (elim conjE)
  have all: "\<forall>s \<in> set ts. R (s_id s) \<noteq> None" using h by (elim conjE)
  have ts: "ts = filter (\<lambda>s. getSensorDataType (s_friendlyName s) = Some k) ?ms"
    using h by (elim conjE)
  have def: "\<forall>s \<in> set ts. getProperty R (s_id s) \<noteq> Undefined"
    using all by (auto simp add: getProperty_def)
  have "filter (\<lambda>s. getSensorDataType (s_friendlyName s) = Some k
                    \<and> getProperty R (s_id s) \<noteq> Undefined) ?ms =
        filter (\<lambda>s. getProperty R (s_id s) \<noteq> Undefined) ts"
    by (simp add: ts)
  also have "\<dots> = ts" using def by simp
  finally have lk: "lookupsOfKind k R ?ms = map (\<lambda>s. getProperty R (s_id s)) ts"
    by (simp add: lookupsOfKind_map)
  have v: "groupValue k g = propertyField k (getProperty R (s_id (last ts)))"
    using groupFor_value [OF gf, of k] last_lookup [OF ne]
    by (simp only: lk)
  have "last ts \<in> set ts" using ne by simp
  with all obtain r where r: "R (s_id (last ts)) = Some r" by blast
  then have "getProperty R (s_id (last ts)) = OwnReading r" by (simp add: getProperty_def)
  with v r show "\<exists>r. R (s_id (last ts)) = Some r \<and> groupValue k g = readingField k r"
    by simp
next
  assume h: "extractLocation (s_friendlyName a) = l \<and> extractLocation (s_friendlyName b) = l
      \<and> \<not> isDeviceName l
      \<and> getSensorDataType (s_friendlyName a) = Some k
      \<and> getSensorDataType (s_friendlyName b) = Some k
      \<and> R (s_id a) = Some ra \<and> R (s_id b) = Some rb"
  then have f: "extractLocation (s_friendlyName a) = l" "extractLocation (s_friendlyName b) = l"
    "\<not> isDeviceName l" "getSensorDataType (s_friendlyName a) = Some k"
    "getSensorDataType (s_friendlyName b) = Some k"
    "getProperty R (s_id a) = OwnReading ra" "getProperty R (s_id b) = OwnReading rb"
    by (simp_all add: getProperty_def)
  show "map (groupValue k) (groupSensorsByLocation cmp [a, b] R) = [readingField k rb]"
    by (simp add: groupSensorsByLocation_def groupStep_def sortBy_def groupValue_mergeSensor
        Let_def f)
  show "map (groupValue k) (groupSensorsByLocation cmp [b, a] R) = [readingField k ra]"
    by (simp add: groupSensorsByLocation_def groupStep_def sortBy_def groupValue_mergeSensor
        Let_def f)
qed

lemma latestReadings2_lookup:
  "getProperty latestReadings2 ''buero_temp'' = OwnReading reading_temp"
  "getProperty latestReadings2 ''buero_temp_old'' = OwnReading reading_old"
  "latestReadings2 ''buero_temp'' = Some reading_temp"
  "latestReadings2 ''buero_temp_old'' = Some reading_old"
  by (simp_all add: latestReadings2_def getProperty_def)

lemma groups_last_wins:
  "groupSensorsByLocation cmp [buero_temp, buero_temp\<lparr>s_id := ''buero_temp_old''\<rparr>]
     latestReadings2 =
   [\<lparr>location = buero, sensorIds = [''buero_temp'', ''buero_temp_old''],
     temperature = None, humidity = None, battery = None,
     lastSeen = DateMs 1764885600000, status = Online\<rparr>]"
  by (simp add: group_eval loc_buero_temp buero_no_device
      dt_buero_temp fixture_fields latestReadings2_lookup reading_old_def)

text \<open>
  Two temperature sensors of one location, the second with a reading that has no
  temperature: the group shows no temperature, and shows 22 when the two are swapped.
  A second sensor named \<open>constructor\<close> without a reading wipes the temperature too.
\<close>

theorem group_value_last_wins_witness:
  "filter (\<lambda>s. getSensorDataType (s_friendlyName s) = Some TemperatureData)
      (membersOf buero [buero_temp, buero_temp\<lparr>s_id := ''buero_temp_old''\<rparr>])
     = [buero_temp, buero_temp\<lparr>s_id := ''buero_temp_old''\<rparr>]
   \<and> latestReadings2 ''buero_temp'' = Some reading_temp
   \<and> latestReadings2 ''buero_temp_old'' = Some reading_old
   \<and> r_temperature reading_old = None
   \<and> map temperature (groupSensorsByLocation codeUnitCompare
      [buero_temp, buero_temp\<lparr>s_id := ''buero_temp_old''\<rparr>] latestReadings2) = [None]
   \<and> map temperature (groupSensorsByLocation codeUnitCompare
      [buero_temp\<lparr>s_id := ''buero_temp_old''\<rparr>, buero_temp] latestReadings2)
       = [Some (Finite 22)]
   \<and> getProperty latestReadings1 ''constructor'' = Inherited
   \<and> map temperature (groupSensorsByLocation codeUnitCompare
      [buero_temp, buero_temp\<lparr>s_id := ''constructor''\<rparr>] latestReadings1) = [None]"
proof -
  let ?b = "buero_temp\<lparr>s_id := ''buero_temp_old''\<rparr>"
  let ?g = "\<lparr>location = buero, sensorIds = [''buero_temp'', ''buero_temp_old''],
     temperature = None, humidity = None, battery = None,
     lastSeen = DateMs 1764885600000, status = Online\<rparr>"
  note t = group_value_last_wins [of ?g codeUnitCompare "[buero_temp, ?b]" latestReadings2
      "[buero_temp, ?b]" TemperatureData "[buero_temp, ?b]" buero_temp buero ?b
      reading_temp reading_old]
  have ms: "membersOf buero [buero_temp, ?b] = [buero_temp, ?b]"
    by (simp add: membersOf_def loc_buero_temp)
  have ks: "[buero_temp, ?b] =
      filter (\<lambda>s. getSensorDataType (s_friendlyName s) = Some TemperatureData
                \<and> getProperty latestReadings2 (s_id s) \<noteq> Undefined)
        (membersOf (location ?g) [buero_temp, ?b])"
    by (simp add: ms dt_buero_temp fixture_fields latestReadings2_lookup)
  have ts: "[buero_temp, ?b] =
      filter (\<lambda>s. getSensorDataType (s_friendlyName s) = Some TemperatureData)
        (membersOf (location ?g) [buero_temp, ?b])"
    by (simp add: ms dt_buero_temp)
  have all: "\<forall>s \<in> set [buero_temp, ?b]. latestReadings2 (s_id s) \<noteq> None"
    by (simp add: fixture_fields latestReadings2_lookup)
  have m: "?g \<in> set (groupSensorsByLocation codeUnitCompare [buero_temp, ?b] latestReadings2)"
    by (simp add: groups_last_wins)
  have p1: "groupValue TemperatureData ?g =
      propertyField TemperatureData (getProperty latestReadings2 (s_id (last [buero_temp, ?b])))"
    by (rule mp [OF conjunct1 [OF t]]) (intro conjI m ks, simp)
  have p2: "\<exists>r. latestReadings2 (s_id (last [buero_temp, ?b])) = Some r
      \<and> groupValue TemperatureData ?g = readingField TemperatureData r"
    by (rule mp [OF conjunct1 [OF conjunct2 [OF t]]]) (intro conjI m ts all, simp)
  have old: "r_temperature reading_old = None" by (simp add: reading_old_def)
  have "extractLocation (s_friendlyName buero_temp) = buero
      \<and> extractLocation (s_friendlyName ?b) = buero
      \<and> \<not> isDeviceName buero
      \<and> getSensorDataType (s_friendlyName buero_temp) = Some TemperatureData
      \<and> getSensorDataType (s_friendlyName ?b) = Some TemperatureData
      \<and> latestReadings2 (s_id buero_temp) = Some reading_temp
      \<and> latestReadings2 (s_id ?b) = Some reading_old"
    by (simp add: loc_buero_temp buero_no_device dt_buero_temp fixture_fields
        latestReadings2_lookup)
  then have p3: "map (groupValue TemperatureData) (groupSensorsByLocation codeUnitCompare
          [buero_temp, ?b] latestReadings2) = [readingField TemperatureData reading_old]
      \<and> map (groupValue TemperatureData) (groupSensorsByLocation codeUnitCompare
          [?b, buero_temp] latestReadings2) = [readingField TemperatureData reading_temp]"
    by (rule mp [OF conjunct2 [OF conjunct2 [OF t]]])
  have gv: "groupValue TemperatureData = temperature" by (rule ext) simp
  let ?c = "buero_temp\<lparr>s_id := ''constructor''\<rparr>"
  let ?gc = "\<lparr>location = buero, sensorIds = [''buero_temp'', ''constructor''],
     temperature = None, humidity = None, battery = None,
     lastSeen = DateMs 1764885600000, status = Online\<rparr>"
  have mc: "?gc \<in> set (groupSensorsByLocation codeUnitCompare [buero_temp, ?c] latestReadings1)"
    by (simp add: groups_constructor)
  have kc: "[buero_temp, ?c] =
      filter (\<lambda>s. getSensorDataType (s_friendlyName s) = Some TemperatureData
                \<and> getProperty latestReadings1 (s_id s) \<noteq> Undefined)
        (membersOf (location ?gc) [buero_temp, ?c])"
    by (simp add: membersOf_def loc_buero_temp dt_buero_temp fixture_fields
        latestReadings1_lookup)
  have p4: "groupValue TemperatureData ?gc =
      propertyField TemperatureData (getProperty latestReadings1 (s_id (last [buero_temp, ?c])))"
    by (rule mp [OF conjunct1 [OF group_value_last_wins
            [of ?gc codeUnitCompare "[buero_temp, ?c]" latestReadings1 "[buero_temp, ?c]"
              TemperatureData]]])
      (intro conjI mc kc, simp)
  have f: "filter (\<lambda>s. getSensorDataType (s_friendlyName s) = Some TemperatureData)
      (membersOf buero [buero_temp, ?b]) = [buero_temp, ?b]"
    by (simp add: ms dt_buero_temp)
  from p1 p2 p3 p4 old gv f show ?thesis
    by (simp add: latestReadings2_lookup latestReadings1_lookup reading_temp_def
        groups_constructor)
qed

subsection \<open>Failure isolation in a collection pass\<close>

lemma fetchAndStore_storedRow:
  "fetchAndStoreSensorData env u s db =
     (case storedRow env u db s of
        None \<Rightarrow> (False, db)
      | Some row \<Rightarrow> (True, db\<lparr>sensor_readings := sensor_readings db @ [row]\<rparr>))"
proof (cases "getSensorState env u (s_entityId s)")
  case (Inl e)
  then show ?thesis by (simp add: fetchAndStoreSensorData_def storedRow_def)
next
  case (Inr st)
  show ?thesis
  proof (cases "parseFloat env (state st) = NaN")
    case True
    with Inr show ?thesis
      by (simp add: fetchAndStoreSensorData_def storedRow_def buildReading_def isNaN_def Let_def
          split: jsdate.splits)
  next
    case False
    with Inr show ?thesis
      by (cases "s_type s"; cases "parseDate env (last_updated st)")
        (simp_all add: fetchAndStoreSensorData_def storedRow_def buildReading_def isNaN_def
          Let_def insertReading_def)
  qed
qed

lemma storedRow_keys:
  "sensors_keys db1 = sensors_keys db \<Longrightarrow> storedRow env u db1 s = storedRow env u db s"
  by (simp add: storedRow_def Let_def split: sum.splits jsdate.splits)

lemma fetchFails_storedRow: "fetchFails env u s \<Longrightarrow> storedRow env u db s = None"
  by (auto simp add: fetchFails_def storedRow_def isNaN_def Let_def
      split: sum.splits jsdate.splits)

lemma run_calls_char:
  "run_calls env u ss order db =
     (map (\<lambda>j. (j, storedRow env u db (ss ! j) \<noteq> None)) (filter (\<lambda>j. j < length ss) order),
      db\<lparr>sensor_readings := sensor_readings db @
            List.map_filter (\<lambda>j. storedRow env u db (ss ! j))
              (filter (\<lambda>j. j < length ss) order)\<rparr>)"
proof (induction order arbitrary: db)
  case Nil
  then show ?case by (simp add: map_filter_simps)
next
  case (Cons i rest)
  show ?case
  proof (cases "i < length ss")
    case False
    then show ?thesis using Cons.IH [of db] by simp
  next
    case True
    show ?thesis
    proof (cases "storedRow env u db (ss ! i)")
      case None
      then show ?thesis
        using True Cons.IH [of db]
        by (simp add: fetchAndStore_storedRow map_filter_simps)
    next
      case (Some row)
      let ?db1 = "db\<lparr>sensor_readings := sensor_readings db @ [row]\<rparr>"
      have k: "\<And>s. storedRow env u ?db1 s = storedRow env u db s"
        by (rule storedRow_keys) simp
      show ?thesis
        using True Some Cons.IH [of ?db1]
        by (simp add: fetchAndStore_storedRow map_filter_simps k)
    qed
  qed
qed

lemma those_map_Some: "those (map (\<lambda>j. Some (f j)) xs) = Some (map f xs)"
  by (induction xs) simp_all

lemma map_of_schedule:
  "j \<in> set order \<Longrightarrow> map_of (map (\<lambda>j. (j, f j)) order) j = Some (f j)"
  by (induction order) auto

lemma schedule_set:
  assumes "mset order = mset [0 ..< n]"
  shows "set order = {0 ..< n}"
  using mset_eq_setD [OF assms] by simp

lemma length_map_filter:
  "length (List.map_filter g xs) = size (filter_mset (\<lambda>j. g j \<noteq> None) (mset xs))"
  by (induction xs) (simp_all add: map_filter_simps split: option.splits)

lemma filter_all_but_one:
  assumes "i < length xs" "\<not> P (xs ! i)" "\<forall>j < length xs. j \<noteq> i \<longrightarrow> P (xs ! j)"
  shows "length (filter P xs) = length xs - 1"
proof -
  have xs: "xs = take i xs @ xs ! i # drop (Suc i) xs"
    using assms(1) by (simp add: id_take_nth_drop)
  have a: "filter P (take i xs) = take i xs"
  proof (rule filter_True, clarify)
    fix x assume "x \<in> set (take i xs)"
    then obtain j where "j < i" "j < length xs" "x = xs ! j"
      by (auto simp add: in_set_conv_nth)
    then show "P x" using assms(3) by simp
  qed
  have b: "filter P (drop (Suc i) xs) = drop (Suc i) xs"
  proof (rule filter_True, clarify)
    fix x assume "x \<in> set (drop (Suc i) xs)"
    then obtain j where "j < length xs - Suc i" "x = xs ! (Suc i + j)"
      by (auto simp add: in_set_conv_nth)
    then show "P x" using assms(3) by simp
  qed
  have "filter P xs = filter P (take i xs @ xs ! i # drop (Suc i) xs)"
    using xs by simp
  also have "\<dots> = take i xs @ drop (Suc i) xs"
    using a b assms(2) by simp
  finally have "length (filter P xs) = length (take i xs) + length (drop (Suc i) xs)"
    by simp
  then show ?thesis using assms(1) by simp
qed

lemma collectData_char:
  assumes "mset order = mset [0 ..< length ss]"
  shows "collectData env u order ss db =
     Some (map (\<lambda>s. storedRow env u db s \<noteq> None) ss,
           db\<lparr>sensor_readings := sensor_readings db @
             List.map_filter (\<lambda>j. storedRow env u db (ss ! j)) order\<rparr>)"
proof (cases "ss = []")
  case True
  with assms have "order = []" by simp
  with True show ?thesis by (simp add: collectData_def map_filter_simps)
next
  case False
  let ?f = "\<lambda>j. storedRow env u db (ss ! j) \<noteq> None"
  have so: "set order = {0 ..< length ss}" using assms by (rule schedule_set)
  then have fo: "filter (\<lambda>j. j < length ss) order = order" by (auto intro: filter_True)
  have "map (map_of (map (\<lambda>j. (j, ?f j)) order)) [0 ..< length ss] =
      map (\<lambda>j. Some (?f j)) [0 ..< length ss]"
    using so by (auto simp add: map_of_schedule)
  then have th: "those (map (map_of (map (\<lambda>j. (j, ?f j)) order)) [0 ..< length ss]) =
      Some (map ?f [0 ..< length ss])"
    by (simp only: those_map_Some)
  have "map ?f [0 ..< length ss] = map (\<lambda>s. storedRow env u db s \<noteq> None) ss"
    by (rule nth_equalityI) simp_all
  with th False show ?thesis
    by (simp add: collectData_def run_calls_char fo)
qed

text \<open>
  C1. Take any order in which the calls of a pass complete, and a sensor of the roster
  whose fetch fails (a failed request, or a state that parses to NaN). The pass completes
  with one boolean per sensor, in roster order: no call raises. The failing sensor
  reports false. The boolean of each sensor is the one its own call gives when run alone,
  and it is true exactly when the sensor's row is stored. The table grows by exactly the
  rows of the sensors that succeed, in order of completion, each with the sensor's
  identifier, the time of its last update and its parsed value in the fields of its
  kind; the failing sensor adds none. If all others succeed, the table grows by one row
  per sensor but the failing one.
\<close>

theorem collectData_failure_isolation:
  assumes "mset order = mset [0 ..< length sensors]"
    and "i < length sensors" and "fetchFails env baseUrl (sensors ! i)"
  shows "\<exists>results db'.
       collectData env baseUrl order sensors db = Some (results, db')
     \<and> length results = length sensors
     \<and> results ! i = False
     \<and> (\<forall>j < length sensors.
           results ! j = fst (fetchAndStoreSensorData env baseUrl (sensors ! j) db)
         \<and> results ! j = (storedRow env baseUrl db (sensors ! j) \<noteq> None))
     \<and> sensor_readings db' =
         sensor_readings db @
           List.map_filter (\<lambda>j. storedRow env baseUrl db (sensors ! j)) order
     \<and> sensors_keys db' = sensors_keys db
     \<and> ((\<forall>j < length sensors. j \<noteq> i \<longrightarrow> storedRow env baseUrl db (sensors ! j) \<noteq> None)
         \<longrightarrow> length (sensor_readings db') = length (sensor_readings db) + (length sensors - 1))"
proof -
  let ?g = "\<lambda>j. storedRow env baseUrl db (sensors ! j)"
  let ?results = "map (\<lambda>s. storedRow env baseUrl db s \<noteq> None) sensors"
  let ?db' = "db\<lparr>sensor_readings := sensor_readings db @ List.map_filter ?g order\<rparr>"
  have c: "collectData env baseUrl order sensors db = Some (?results, ?db')"
    using assms(1) by (rule collectData_char)
  have fi: "?g i = None" using assms(3) by (rule fetchFails_storedRow)
  have own: "fst (fetchAndStoreSensorData env baseUrl (sensors ! j) db) = (?g j \<noteq> None)" for j
    by (simp add: fetchAndStore_storedRow split: option.splits)
  have cnt: "length (sensor_readings ?db') = length (sensor_readings db) + (length sensors - 1)"
    if h: "\<forall>j < length sensors. j \<noteq> i \<longrightarrow> ?g j \<noteq> None"
  proof -
    let ?P = "\<lambda>j. ?g j \<noteq> None"
    have "length (List.map_filter ?g order) = size (filter_mset ?P (mset order))"
      by (rule length_map_filter)
    also have "\<dots> = size (filter_mset ?P (mset [0 ..< length sensors]))"
      by (simp only: assms(1))
    also have "\<dots> = length (filter ?P [0 ..< length sensors])"
      by (metis mset_filter size_mset)
    also have "\<dots> = length [0 ..< length sensors] - 1"
    proof (rule filter_all_but_one)
      show "i < length [0 ..< length sensors]" using assms(2) by simp
      show "\<not> ?P ([0 ..< length sensors] ! i)" using assms(2) fi by simp
      show "\<forall>j < length [0 ..< length sensors]. j \<noteq> i \<longrightarrow> ?P ([0 ..< length sensors] ! j)"
        using h by simp
    qed
    finally show ?thesis by simp
  qed
  show ?thesis
  proof (intro exI conjI allI impI)
    show "collectData env baseUrl order sensors db = Some (?results, ?db')" by (rule c)
    show "length ?results = length sensors" by simp
    show "?results ! i = False" using assms(2) fi by simp
    show "?results ! j = fst (fetchAndStoreSensorData env baseUrl (sensors ! j) db)"
      if "j < length sensors" for j using that by (simp add: own)
    show "?results ! j = (?g j \<noteq> None)" if "j < length sensors" for j using that by simp
    show "sensor_readings ?db' = sensor_readings db @ List.map_filter ?g order" by simp
    show "sensors_keys ?db' = sensors_keys db" by simp
    show "length (sensor_readings ?db') = length (sensor_readings db) + (length sensors - 1)"
      if "\<forall>j < length sensors. j \<noteq> i \<longrightarrow> ?g j \<noteq> None" using that by (rule cnt)
  qed
qed

lemma fetch_example:
  "fetchAndStoreSensorData env_example ''http://ha.local'' buero_temp db =
     (if ''buero_temp'' \<in> set (sensors_keys db)
      then (True, db\<lparr>sensor_readings := sensor_readings db @
              [\<lparr>row_sensor_id = ''buero_temp'', row_timestamp = 1764885600000,
                row_temperature = Some (Finite 22), row_humidity = None\<rparr>]\<rparr>)
      else (False, db))"
  "fetchAndStoreSensorData env_example ''http://ha.local'' buero_hum db = (False, db)"
  "fetchAndStoreSensorData env_example ''http://ha.local'' buero_bat db =
     (if ''buero_bat'' \<in> set (sensors_keys db)
      then (True, db\<lparr>sensor_readings := sensor_readings db @
              [\<lparr>row_sensor_id = ''buero_bat'', row_timestamp = 1764835200000,
                row_temperature = None, row_humidity = Some (Finite 16)\<rparr>]\<rparr>)
      else (False, db))"
  by (simp_all add: fetchAndStoreSensorData_def getSensorState_def client_fetch_def
      env_example_def buero_temp_def buero_hum_def buero_bat_def buildReading_def isNaN_def
      state_temp_def state_bat_def insertReading_def)

lemma fetchFails_example: "fetchFails env_example ''http://ha.local'' buero_hum"
  by (simp add: fetchFails_def getSensorState_def client_fetch_def env_example_def
      buero_hum_def)

lemma collect_example:
  "collectData env_example ''http://ha.local'' [2, 0, 1] [buero_temp, buero_hum, buero_bat]
     db_example =
    Some ([True, False, True],
     \<lparr>sensors_keys = [''buero_temp'', ''buero_hum'', ''buero_bat''],
      sensor_readings =
        [\<lparr>row_sensor_id = ''buero_bat'', row_timestamp = 1764835200000,
          row_temperature = None, row_humidity = Some (Finite 16)\<rparr>,
         \<lparr>row_sensor_id = ''buero_temp'', row_timestamp = 1764885600000,
          row_temperature = Some (Finite 22), row_humidity = None\<rparr>]\<rparr>)"
  by (simp add: collectData_def fetch_example db_example_def)

text \<open>
  Three sensors; the request for the second is answered with an error status, and the
  third call completes first. The readings of the third and the first are stored.
\<close>

theorem collectData_failure_isolation_witness:
  "fetchFails env_example ''http://ha.local'' ([buero_temp, buero_hum, buero_bat] ! 1)
   \<and> collectData env_example ''http://ha.local'' [2, 0, 1] [buero_temp, buero_hum, buero_bat]
        db_example =
      Some ([True, False, True],
       \<lparr>sensors_keys = [''buero_temp'', ''buero_hum'', ''buero_bat''],
        sensor_readings =
          [\<lparr>row_sensor_id = ''buero_bat'', row_timestamp = 1764835200000,
            row_temperature = None, row_humidity = Some (Finite 16)\<rparr>,
           \<lparr>row_sensor_id = ''buero_temp'', row_timestamp = 1764885600000,
            row_temperature = Some (Finite 22), row_humidity = None\<rparr>]\<rparr>)
   \<and> List.map_filter (\<lambda>j. storedRow env_example ''http://ha.local'' db_example
          ([buero_temp, buero_hum, buero_bat] ! j)) [2, 0, 1] =
        [\<lparr>row_sensor_id = ''buero_bat'', row_timestamp = 1764835200000,
            row_temperature = None, row_humidity = Some (Finite 16)\<rparr>,
         \<lparr>row_sensor_id = ''buero_temp'', row_timestamp = 1764885600000,
            row_temperature = Some (Finite 22), row_humidity = None\<rparr>]"
proof -
  let ?ss = "[buero_temp, buero_hum, buero_bat]"
  have p: "mset [2, 0, 1 :: nat] = mset [0 ..< length ?ss]"
    by (simp add: upt_rec)
  have i: "(1::nat) < length ?ss" by simp
  have f: "fetchFails env_example ''http://ha.local'' (?ss ! 1)"
    by (simp add: fetchFails_example)
  from collectData_failure_isolation [OF p i f, of db_example]
  obtain results db' where
    c: "collectData env_example ''http://ha.local'' [2, 0, 1] ?ss db_example = Some (results, db')"
    and r: "sensor_readings db' = sensor_readings db_example @
        List.map_filter (\<lambda>j. storedRow env_example ''http://ha.local'' db_example (?ss ! j))
          [2, 0, 1]"
    by blast
  from c [unfolded collect_example] have "db' = \<lparr>sensors_keys = [''buero_temp'', ''buero_hum'', ''buero_bat''],
        sensor_readings =
          [\<lparr>row_sensor_id = ''buero_bat'', row_timestamp = 1764835200000,
            row_temperature = None, row_humidity = Some (Finite 16)\<rparr>,
           \<lparr>row_sensor_id = ''buero_temp'', row_timestamp = 1764885600000,
            row_temperature = Some (Finite 22), row_humidity = None\<rparr>]\<rparr>"
    by simp
  with r have "List.map_filter (\<lambda>j. storedRow env_example ''http://ha.local'' db_example
          (?ss ! j)) [2, 0, 1] =
        [\<lparr>row_sensor_id = ''buero_bat'', row_timestamp = 1764835200000,
            row_temperature = None, row_humidity = Some (Finite 16)\<rparr>,
         \<lparr>row_sensor_id = ''buero_temp'', row_timestamp = 1764885600000,
            row_temperature = Some (Finite 22), row_humidity = None\<rparr>]"
    by (simp add: db_example_def)
  with f show ?thesis by (simp only: collect_example simp_thms)
qed

subsection \<open>Readings carry a value\<close>

text \<open>
  C7. A reading that the fetcher builds holds a temperature or a humidity: the parsed
  value, which is not NaN, in the temperature field unless the kind is humidity, and in
  the humidity field unless the kind is temperature. It is the reading that
  \<open>fetchAndStoreSensorData\<close> hands to \<open>insertReading\<close>.
\<close>

theorem reading_has_value:
  assumes "buildReading env sensor st = Some reading"
  shows "(r_temperature reading \<noteq> None \<or> r_humidity reading \<noteq> None)
     \<and> parseFloat env (state st) \<noteq> NaN
     \<and> r_temperature reading =
          (if s_type sensor = Humidity then None else Some (parseFloat env (state st)))
     \<and> r_humidity reading =
          (if s_type sensor = Temperature then None else Some (parseFloat env (state st)))"
  using assms
  by (cases "s_type sensor")
    (auto simp add: buildReading_def Let_def isNaN_def split: if_splits)

text \<open>
  A temperature sensor with the state "22.0"; the state "unavailable" builds no reading.
\<close>

theorem reading_has_value_witness:
  "buildReading env_example buero_temp state_temp =
     Some \<lparr>r_sensorId = ''buero_temp'', r_timestamp = DateMs 1764885600000,
            r_temperature = Some (Finite 22), r_humidity = None\<rparr>
   \<and> r_temperature \<lparr>r_sensorId = ''buero_temp'', r_timestamp = DateMs 1764885600000,
            r_temperature = Some (Finite 22), r_humidity = None\<rparr> = Some (Finite 22)
   \<and> buildReading env_example buero_temp (state_temp\<lparr>state := ''unavailable''\<rparr>) = None"
proof -
  have b: "buildReading env_example buero_temp state_temp =
     Some \<lparr>r_sensorId = ''buero_temp'', r_timestamp = DateMs 1764885600000,
            r_temperature = Some (Finite 22), r_humidity = None\<rparr>"
    by (simp add: buildReading_def env_example_def buero_temp_def state_temp_def isNaN_def)
  have n: "buildReading env_example buero_temp (state_temp\<lparr>state := ''unavailable''\<rparr>) = None"
    by (simp add: buildReading_def env_example_def isNaN_def)
  from reading_has_value [OF b] b n show ?thesis by simp
qed

subsection \<open>Retention\<close>

text \<open>
  C4. When the query goes through, \<open>deleteOldReadings\<close> keeps the rows whose timestamp
  is not before the cutoff, removes exactly the rows whose timestamp is strictly before
  it and returns their number; run again with the same cutoff on the result, it deletes
  nothing and returns 0.
\<close>

theorem deleteOldReadings_exact_idempotent:
  "\<exists>n db'. deleteOldReadings True (DateMs cutoff) db = Inr (n, db')
     \<and> sensor_readings db' = filter (\<lambda>r. cutoff \<le> row_timestamp r) (sensor_readings db)
     \<and> mset (sensor_readings db) =
         mset (sensor_readings db')
           + mset (filter (\<lambda>r. row_timestamp r < cutoff) (sensor_readings db))
     \<and> n = length (filter (\<lambda>r. row_timestamp r < cutoff) (sensor_readings db))
     \<and> sensors_keys db' = sensors_keys db
     \<and> deleteOldReadings True (DateMs cutoff) db' = Inr (0, db')"
proof -
  let ?kept = "filter (\<lambda>r. \<not> row_timestamp r < cutoff) (sensor_readings db)"
  let ?db' = "db\<lparr>sensor_readings := ?kept\<rparr>"
  have k: "?kept = filter (\<lambda>r. cutoff \<le> row_timestamp r) (sensor_readings db)"
    by (simp add: not_less)
  have 1: "deleteOldReadings True (DateMs cutoff) db =
      Inr (length (filter (\<lambda>r. row_timestamp r < cutoff) (sensor_readings db)), ?db')"
    by (simp add: deleteOldReadings_def Let_def)
  have 2: "mset (sensor_readings db) =
         mset ?kept + mset (filter (\<lambda>r. row_timestamp r < cutoff) (sensor_readings db))"
    by (induction "sensor_readings db") simp_all
  have 3: "deleteOldReadings True (DateMs cutoff) ?db' = Inr (0, ?db')"
    by (simp add: deleteOldReadings_def Let_def)
  from 1 2 3 k show ?thesis by simp
qed

subsection \<open>Location extraction\<close>

lemma startsWith_iff: "startsWith s p \<longleftrightarrow> (\<exists>v. s = p @ v)"
  by (induction s p rule: startsWith.induct) auto

lemma occursAfter_Nil: "occursAfter [] p s \<longleftrightarrow> startsWith s p"
  by (simp add: occursAfter_def startsWith_iff)

lemma occursAfter_Cons:
  "occursAfter u p (c # cs) \<longleftrightarrow>
     (u = [] \<and> startsWith (c # cs) p) \<or> (\<exists>u'. u = c # u' \<and> occursAfter u' p cs)"
  by (cases u) (auto simp add: occursAfter_def startsWith_iff)

lemma lastIndexOf_ge: "-1 \<le> lastIndexOf s p"
  by (induction s) (auto simp add: Let_def)

lemma lastIndexOf_none: "lastIndexOf s p = -1 \<Longrightarrow> \<not> occursAfter u p s"
proof (induction s arbitrary: u)
  case Nil
  then show ?case by (auto simp add: occursAfter_def split: if_splits)
next
  case (Cons c cs)
  from Cons.prems have r: "lastIndexOf cs p = -1" and n: "\<not> startsWith (c # cs) p"
    using lastIndexOf_ge [of cs p] by (auto simp add: Let_def split: if_splits)
  show ?case using Cons.IH [OF r] n by (auto simp add: occursAfter_Cons)
qed

lemma lastIndexOf_some:
  "lastIndexOf s p \<noteq> -1 \<Longrightarrow>
     \<exists>u. lastIndexOf s p = int (length u) \<and> occursAfter u p s
       \<and> (\<forall>u'. occursAfter u' p s \<longrightarrow> length u' \<le> length u)"
proof (induction s)
  case Nil
  then show ?case by (auto simp add: occursAfter_def split: if_splits)
next
  case (Cons c cs)
  show ?case
  proof (cases "lastIndexOf cs p = -1")
    case True
    with Cons.prems have sw: "startsWith (c # cs) p" and z: "lastIndexOf (c # cs) p = 0"
      by (auto simp add: Let_def split: if_splits)
    have "\<forall>u'. occursAfter u' p (c # cs) \<longrightarrow> length u' \<le> length ([]::string)"
      using lastIndexOf_none [OF True] by (auto simp add: occursAfter_Cons)
    with sw z show ?thesis
      by (metis occursAfter_Nil list.size(3) of_nat_0)
  next
    case False
    then obtain u where u: "lastIndexOf cs p = int (length u)" "occursAfter u p cs"
        "\<forall>u'. occursAfter u' p cs \<longrightarrow> length u' \<le> length u"
      using Cons.IH by blast
    have 1: "lastIndexOf (c # cs) p = int (length (c # u))"
      using False u(1) by (simp add: Let_def)
    have 2: "occursAfter (c # u) p (c # cs)" using u(2) by (simp add: occursAfter_Cons)
    have 3: "\<forall>u'. occursAfter u' p (c # cs) \<longrightarrow> length u' \<le> length (c # u)"
      using u(3) by (auto simp add: occursAfter_Cons)
    from 1 2 3 show ?thesis by blast
  qed
qed

lemma lastIndexOf_last:
  assumes "occursAfter u p s" and "\<forall>u'. occursAfter u' p s \<longrightarrow> length u' \<le> length u"
  shows "lastIndexOf s p = int (length u)"
proof -
  have "lastIndexOf s p \<noteq> -1" using assms(1) lastIndexOf_none by blast
  then obtain w where w: "lastIndexOf s p = int (length w)" "occursAfter w p s"
      "\<forall>u'. occursAfter u' p s \<longrightarrow> length u' \<le> length w"
    using lastIndexOf_some by blast
  have "length w = length u" using assms w(2,3) by (simp add: dual_order.antisym)
  with w(1) show ?thesis by simp
qed

lemma extractLocation_loop_none:
  "(\<forall>e \<in> set sfx. \<forall>u. \<not> occursAfter u (CHR '' '' # e) name)
     \<Longrightarrow> extractLocation_loop sfx name = trim name"
proof (induction sfx)
  case Nil
  then show ?case by simp
next
  case (Cons x rest)
  have "lastIndexOf name (CHR '' '' # x) = -1"
  proof (rule ccontr)
    assume "lastIndexOf name (CHR '' '' # x) \<noteq> -1"
    then obtain u where "occursAfter u (CHR '' '' # x) name"
      using lastIndexOf_some by blast
    with Cons.prems show False by simp
  qed
  with Cons show ?case by simp
qed

lemma extractLocation_loop_cut:
  assumes "e \<in> set sfx"
    and "occursAfter u (CHR '' '' # e) name"
    and "\<forall>u'. occursAfter u' (CHR '' '' # e) name \<longrightarrow> length u' \<le> length u"
    and "\<forall>e' \<in> set (takeWhile (\<lambda>x. x \<noteq> e) sfx). \<forall>u'. \<not> occursAfter u' (CHR '' '' # e') name"
  shows "extractLocation_loop sfx name = trim u"
  using assms(1,4)
proof (induction sfx)
  case Nil
  then show ?case by simp
next
  case (Cons x rest)
  show ?case
  proof (cases "x = e")
    case True
    have i: "lastIndexOf name (CHR '' '' # e) = int (length u)"
      using assms(2,3) by (rule lastIndexOf_last)
    have "take (length u) name = u" using assms(2) by (auto simp add: occursAfter_def)
    with i True show ?thesis by (simp add: substring0_def)
  next
    case False
    with Cons.prems(2) have nx: "\<forall>u'. \<not> occursAfter u' (CHR '' '' # x) name" by simp
    have m1: "lastIndexOf name (CHR '' '' # x) = -1"
    proof (rule ccontr)
      assume "lastIndexOf name (CHR '' '' # x) \<noteq> -1"
      then obtain w where "occursAfter w (CHR '' '' # x) name"
        using lastIndexOf_some by blast
      with nx show False by simp
    qed
    have "e \<in> set rest" using Cons.prems(1) False by simp
    moreover have "\<forall>e' \<in> set (takeWhile (\<lambda>x. x \<noteq> e) rest).
        \<forall>u'. \<not> occursAfter u' (CHR '' '' # e') name"
      using Cons.prems(2) False by simp
    ultimately have "extractLocation_loop rest name = trim u" by (rule Cons.IH)
    with m1 show ?thesis by simp
  qed
qed

lemma loc_str:
  "extractLocation (buero @ '' Temperature'') = buero"
  "extractLocation (buero @ '' Humidity'') = buero"
  by (simp_all add: eval_defs)

lemma dt_str:
  "getSensorDataType (buero @ '' Temperature'') = Some TemperatureData"
  "getSensorDataType (buero @ '' Humidity'') = Some HumidityData"
  by (simp_all add: buero_def getSensorDataType_def toLowerCase_def toLowerChar_def
      char_of_eq_iff)

lemma buero_pair:
  assumes "s_friendlyName a = buero @ '' Temperature''"
    and "s_friendlyName b = buero @ '' Humidity''"
  shows "map location (groupSensorsByLocation cmp [a, b] R) = [buero]"
    and "map sensorIds (groupSensorsByLocation cmp [a, b] R) = [[s_id a, s_id b]]"
    and "map temperature (groupSensorsByLocation cmp [a, b] R) =
           [case R (s_id a) of None \<Rightarrow> None | Some r \<Rightarrow> r_temperature r]"
    and "map humidity (groupSensorsByLocation cmp [a, b] R) =
           [case R (s_id b) of None \<Rightarrow> None | Some r \<Rightarrow> r_humidity r]"
proof -
  have g: "groupSensorsByLocation cmp [a, b] R =
      [mergeSensor R b (mergeSensor R a (newGroup buero a))]"
    by (simp add: groupSensorsByLocation_def groupStep_def sortBy_def Let_def assms loc_str
        buero_no_device)
  show "map location (groupSensorsByLocation cmp [a, b] R) = [buero]"
    by (simp add: g newGroup_def)
  show "map sensorIds (groupSensorsByLocation cmp [a, b] R) = [[s_id a, s_id b]]"
    by (simp add: g newGroup_def)
  have t: "groupValue TemperatureData (mergeSensor R b (mergeSensor R a (newGroup buero a))) =
      (case R (s_id a) of None \<Rightarrow> None | Some r \<Rightarrow> r_temperature r)"
    by (simp add: groupValue_mergeSensor assms dt_str getProperty_def split: option.splits)
  have h: "groupValue HumidityData (mergeSensor R b (mergeSensor R a (newGroup buero a))) =
      (case R (s_id b) of None \<Rightarrow> None | Some r \<Rightarrow> r_humidity r)"
    by (simp add: groupValue_mergeSensor assms dt_str getProperty_def split: option.splits)
  show "map temperature (groupSensorsByLocation cmp [a, b] R) =
           [case R (s_id a) of None \<Rightarrow> None | Some r \<Rightarrow> r_temperature r]"
    using t by (simp add: g)
  show "map humidity (groupSensorsByLocation cmp [a, b] R) =
           [case R (s_id b) of None \<Rightarrow> None | Some r \<Rightarrow> r_humidity r]"
    using h by (simp add: g)
qed

text \<open>
  C5, as stated: a trailing descriptor is stripped whatever its case, and a name without
  a trailing descriptor is its own location. The code leaves "Kitchen TEMPERATURE" whole,
  and it cuts "Kitchen Temperature Probe", where the descriptor does not trail, down to
  "Kitchen".
\<close>

theorem extractLocation_case_sensitive_counterexample:
  "extractLocation ''Kitchen TEMPERATURE'' = ''Kitchen TEMPERATURE''
   \<and> extractLocation ''Kitchen Temperature Probe'' = ''Kitchen''"
  by (simp add: eval_defs)

text \<open>
  C5, amended: the descriptors are the seven spellings of the list, taken as written.
  A name in which none of them occurs after a space is its own location, trimmed. Else
  the first descriptor of the list that occurs after a space decides: the name is cut
  at the last such occurrence of it, and the part before, trimmed, is the location. Two
  sensors named \<open>buero\<close> (the room name of the test suite, with its umlaut) followed
  by " Temperature" and by " Humidity" give one group of that location, with the
  temperature of the latest reading of the first and the humidity of the latest reading
  of the second.
\<close>

theorem extractLocation_cut:
  "((\<forall>e \<in> set suffixes. \<forall>u. \<not> occursAfter u (CHR '' '' # e) name)
      \<longrightarrow> extractLocation name = trim name)
   \<and> (e \<in> set suffixes
      \<and> occursAfter u (CHR '' '' # e) name
      \<and> (\<forall>u'. occursAfter u' (CHR '' '' # e) name \<longrightarrow> length u' \<le> length u)
      \<and> (\<forall>e' \<in> set (takeWhile (\<lambda>x. x \<noteq> e) suffixes).
            \<forall>u'. \<not> occursAfter u' (CHR '' '' # e') name)
      \<longrightarrow> extractLocation name = trim u)
   \<and> (s_friendlyName a = buero @ '' Temperature'' \<and> s_friendlyName b = buero @ '' Humidity''
      \<longrightarrow> map location (groupSensorsByLocation cmp [a, b] R) = [buero]
        \<and> map sensorIds (groupSensorsByLocation cmp [a, b] R) = [[s_id a, s_id b]]
        \<and> map temperature (groupSensorsByLocation cmp [a, b] R) =
             [case R (s_id a) of None \<Rightarrow> None | Some r \<Rightarrow> r_temperature r]
        \<and> map humidity (groupSensorsByLocation cmp [a, b] R) =
             [case R (s_id b) of None \<Rightarrow> None | Some r \<Rightarrow> r_humidity r])"
proof (intro conjI impI)
  assume "\<forall>e \<in> set suffixes. \<forall>u. \<not> occursAfter u (CHR '' '' # e) name"
  then show "extractLocation name = trim name"
    unfolding extractLocation_def by (rule extractLocation_loop_none)
next
  assume h: "e \<in> set suffixes
      \<and> occursAfter u (CHR '' '' # e) name
      \<and> (\<forall>u'. occursAfter u' (CHR '' '' # e) name \<longrightarrow> length u' \<le> length u)
      \<and> (\<forall>e' \<in> set (takeWhile (\<lambda>x. x \<noteq> e) suffixes).
            \<forall>u'. \<not> occursAfter u' (CHR '' '' # e') name)"
  then have 1: "e \<in> set suffixes" and 2: "occursAfter u (CHR '' '' # e) name"
    and 3: "\<forall>u'. occursAfter u' (CHR '' '' # e) name \<longrightarrow> length u' \<le> length u"
    and 4: "\<forall>e' \<in> set (takeWhile (\<lambda>x. x \<noteq> e) suffixes).
            \<forall>u'. \<not> occursAfter u' (CHR '' '' # e') name"
    by simp_all
  show "extractLocation name = trim u"
    unfolding extractLocation_def using 1 2 3 4 by (rule extractLocation_loop_cut)
next
  assume h: "s_friendlyName a = buero @ '' Temperature'' \<and> s_friendlyName b = buero @ '' Humidity''"
  then have a: "s_friendlyName a = buero @ '' Temperature''"
    and b: "s_friendlyName b = buero @ '' Humidity''" by simp_all
  show "map location (groupSensorsByLocation cmp [a, b] R) = [buero]"
    using a b by (rule buero_pair)
  show "map sensorIds (groupSensorsByLocation cmp [a, b] R) = [[s_id a, s_id b]]"
    using a b by (rule buero_pair)
  show "map temperature (groupSensorsByLocation cmp [a, b] R) =
             [case R (s_id a) of None \<Rightarrow> None | Some r \<Rightarrow> r_temperature r]"
    using a b by (rule buero_pair)
  show "map humidity (groupSensorsByLocation cmp [a, b] R) =
             [case R (s_id b) of None \<Rightarrow> None | Some r \<Rightarrow> r_humidity r]"
    using a b by (rule buero_pair)
qed

text \<open>
  A name without descriptor, a name that ends in " humidity", and the two sensors of the
  test suite with their readings.
\<close>

theorem extractLocation_cut_witness:
  "extractLocation ''Wohnzimmer'' = ''Wohnzimmer''
   \<and> extractLocation ''Schlafzimmer humidity'' = ''Schlafzimmer''
   \<and> map location (groupSensorsByLocation codeUnitCompare [buero_temp, buero_hum] latestReadings3)
        = [buero]
   \<and> map temperature (groupSensorsByLocation codeUnitCompare [buero_temp, buero_hum]
        latestReadings3) = [Some (Finite 22)]
   \<and> map humidity (groupSensorsByLocation codeUnitCompare [buero_temp, buero_hum]
        latestReadings3) = [Some (Finite (263 / 5))]"
proof -
  let ?n = "''Schlafzimmer humidity''"
  have e1: "\<forall>e \<in> set suffixes. lastIndexOf ''Wohnzimmer'' (CHR '' '' # e) = -1"
    by (simp add: suffixes_def)
  have e2: "\<forall>e \<in> set (takeWhile (\<lambda>x. x \<noteq> ''humidity'') suffixes).
      lastIndexOf ?n (CHR '' '' # e) = -1"
    by (simp add: suffixes_def)
  have none: "\<forall>e \<in> set suffixes. \<forall>u. \<not> occursAfter u (CHR '' '' # e) ''Wohnzimmer''"
  proof (intro ballI allI)
    fix e u assume "e \<in> set suffixes"
    with e1 have "lastIndexOf ''Wohnzimmer'' (CHR '' '' # e) = -1"
      by (rule bspec)
    then show "\<not> occursAfter u (CHR '' '' # e) ''Wohnzimmer''" by (rule lastIndexOf_none)
  qed
  have 1: "''humidity'' \<in> set suffixes" by (simp add: suffixes_def)
  have 2: "occursAfter ''Schlafzimmer'' (CHR '' '' # ''humidity'') ?n"
    by (simp add: occursAfter_def)
  have 3: "\<forall>u'. occursAfter u' (CHR '' '' # ''humidity'') ?n
      \<longrightarrow> length u' \<le> length ''Schlafzimmer''"
  proof (intro allI impI)
    fix u' assume "occursAfter u' (CHR '' '' # ''humidity'') ?n"
    then obtain v where "?n = u' @ (CHR '' '' # ''humidity'') @ v"
      by (auto simp add: occursAfter_def)
    then have "length ?n = length (u' @ (CHR '' '' # ''humidity'') @ v)" by (rule arg_cong)
    then show "length u' \<le> length ''Schlafzimmer''" by simp
  qed
  have 4: "\<forall>e' \<in> set (takeWhile (\<lambda>x. x \<noteq> ''humidity'') suffixes).
      \<forall>u'. \<not> occursAfter u' (CHR '' '' # e') ?n"
  proof (intro ballI allI)
    fix e' u' assume "e' \<in> set (takeWhile (\<lambda>x. x \<noteq> ''humidity'') suffixes)"
    with e2 have "lastIndexOf ?n (CHR '' '' # e') = -1"
      by (rule bspec)
    then show "\<not> occursAfter u' (CHR '' '' # e') ?n" by (rule lastIndexOf_none)
  qed
  have a: "extractLocation ''Wohnzimmer'' = trim ''Wohnzimmer''"
    by (rule mp [OF conjunct1 [OF extractLocation_cut [of "''Wohnzimmer''"]] none])
  have b: "extractLocation ?n = trim ''Schlafzimmer''"
    by (rule mp [OF conjunct1 [OF conjunct2
          [OF extractLocation_cut [of ?n "''humidity''" "''Schlafzimmer''"]]]])
      (intro conjI 1 2 3 4)
  have n: "s_friendlyName buero_temp = buero @ '' Temperature''
      \<and> s_friendlyName buero_hum = buero @ '' Humidity''"
    by (simp add: buero_temp_def buero_hum_def)
  have c: "map location (groupSensorsByLocation codeUnitCompare [buero_temp, buero_hum]
          latestReadings3) = [buero]
      \<and> map sensorIds (groupSensorsByLocation codeUnitCompare [buero_temp, buero_hum]
          latestReadings3) = [[s_id buero_temp, s_id buero_hum]]
      \<and> map temperature (groupSensorsByLocation codeUnitCompare [buero_temp, buero_hum]
          latestReadings3) =
          [case latestReadings3 (s_id buero_temp) of None \<Rightarrow> None | Some r \<Rightarrow> r_temperature r]
      \<and> map humidity (groupSensorsByLocation codeUnitCompare [buero_temp, buero_hum]
          latestReadings3) =
          [case latestReadings3 (s_id buero_hum) of None \<Rightarrow> None | Some r \<Rightarrow> r_humidity r]"
    by (rule mp [OF conjunct2 [OF conjunct2
          [OF extractLocation_cut
            [of _ _ _ buero_temp buero_hum codeUnitCompare latestReadings3]]] n])
  from a b c show ?thesis
    by (simp add: trim_def isWhiteSpace_def fixture_fields latestReadings3_lookup
        reading_temp_def reading_hum_def)
qed

end
